theory Spec2Isabelle
  imports Complex_Main "HOL-Library.AList"
begin

section \<open>Liveness orchestration: shallow embedding of the services\<close>

text \<open>
  The development follows \<^verbatim>\<open>FlaskApi/app/services\<close>. Python floats are idealised as
  reals; the perception back ends (face embedder, depth estimator, landmark predictor,
  speech recogniser) and the clock are external, so every executor takes what they
  delivered as an argument. A \<^verbatim>\<open>while time.time() - start_time < duration\<close> loop is a
  recursion over the finite list of camera events it got to see before the budget was
  used up.
\<close>

subsection \<open>Step results, as the executors return them\<close>

datatype pyval = PInt int | PStr string | PReal real | PReals "real list" | PNone

text \<open>
  The dictionary a step executor returns: the keys every executor sets
  (\<^verbatim>\<open>success\<close>, \<^verbatim>\<open>confidence\<close>, \<^verbatim>\<open>message\<close>), the optional \<^verbatim>\<open>error\<close>, and the
  step-specific keys in \<open>details\<close>.
\<close>

record step_result =
  success :: bool
  confidence :: real
  message :: string
  error :: "string option"
  details :: "(string \<times> pyval) list"

text \<open>\<^verbatim>\<open>d.get(k, default)\<close> on the step-specific keys.\<close>

definition get_detail :: "step_result \<Rightarrow> string \<Rightarrow> pyval \<Rightarrow> pyval" where
  "get_detail r k dflt = (case map_of (details r) k of Some v \<Rightarrow> v | None \<Rightarrow> dflt)"

text \<open>A call of an executor either returns its dictionary or raises.\<close>

datatype step_outcome = Raised string | Returned step_result

subsection \<open>Camera service (\<^verbatim>\<open>camera_service.py\<close>)\<close>

text \<open>
  A \<^verbatim>\<open>cv2.VideoCapture\<close> object is known by whether it is opened. The environment says
  what constructing one does (raise, or give an object that is opened or not) and
  whether the device's \<^verbatim>\<open>release()\<close> raises. The trace records the method calls on
  the service and the calls that reach the device.
\<close>

datatype capture = Capture (isOpened: bool)

record camera_service =
  camera :: "capture option"

record camera_env =
  construct :: "string + bool"
  release_raises :: bool

datatype cam_event = GetCamera | DeviceOpen bool | ReleaseCamera | DeviceRelease

definition get_camera ::
  "camera_env \<Rightarrow> camera_service \<Rightarrow> capture option \<times> camera_service \<times> cam_event list" where
  "get_camera env svc =
     (if camera svc = None \<or> \<not> isOpened (the (camera svc)) then
        (case construct env of
           Inl e \<Rightarrow> (None, svc, [GetCamera])
         | Inr opened \<Rightarrow>
             (let svc' = svc\<lparr>camera := Some (Capture opened)\<rparr> in
              if \<not> opened then (None, svc', [GetCamera, DeviceOpen False])
              else (camera svc', svc', [GetCamera, DeviceOpen True])))
      else (camera svc, svc, [GetCamera]))"

definition release_camera ::
  "camera_env \<Rightarrow> camera_service \<Rightarrow> camera_service \<times> cam_event list" where
  "release_camera env svc =
     (if camera svc \<noteq> None then
        (if release_raises env then (svc, [ReleaseCamera, DeviceRelease])
         else (svc\<lparr>camera := None\<rparr>, [ReleaseCamera, DeviceRelease]))
      else (svc, [ReleaseCamera]))"

subsection \<open>The orchestrator (\<^verbatim>\<open>liveness_service.py\<close>)\<close>

text \<open>An entry of the \<^verbatim>\<open>steps\<close> dictionary of the pipeline result.\<close>

record step_entry =
  passed :: bool
  entry_confidence :: real
  entry_message :: "string option"
  entry_error :: "string option"
  entry_details :: "(string \<times> pyval) list"

text \<open>
  The pipeline result. \<^verbatim>\<open>passed_steps\<close>, \<^verbatim>\<open>total_steps\<close> and \<^verbatim>\<open>message\<close> are keys
  that only \<^verbatim>\<open>results.update\<close> adds, hence options. The \<^verbatim>\<open>timestamp\<close> key is the
  clock's and is left out.
\<close>

record pipeline_result =
  r_success :: bool
  is_live :: bool
  r_confidence :: real
  steps :: "(string \<times> step_entry) list"
  passed_steps :: "nat option"
  total_steps :: "nat option"
  r_message :: "string option"
  r_error :: "string option"

definition initial_results :: pipeline_result where
  "initial_results =
     \<lparr>r_success = False, is_live = False, r_confidence = 0, steps = [],
      passed_steps = None, total_steps = None, r_message = None, r_error = None\<rparr>"

text \<open>The locals of \<^verbatim>\<open>run_complete_liveness_detection\<close>, and the steps entered so far.\<close>

record locals =
  step_results :: "(string \<times> step_entry) list"
  total_confidence :: real
  n_passed :: nat
  executed :: "string list"

definition initial_locals :: locals where
  "initial_locals = \<lparr>step_results = [], total_confidence = 0, n_passed = 0, executed = []\<rparr>"

definition failed_entry :: "string \<Rightarrow> step_entry" where
  "failed_entry e =
     \<lparr>passed = False, entry_confidence = 0, entry_message = None, entry_error = Some e,
      entry_details = []\<rparr>"

definition basic_entry :: "step_result \<Rightarrow> step_entry" where
  "basic_entry r =
     \<lparr>passed = success r, entry_confidence = confidence r, entry_message = Some (message r),
      entry_error = None, entry_details = []\<rparr>"

definition blink_entry :: "step_result \<Rightarrow> step_entry" where
  "blink_entry r =
     (basic_entry r)\<lparr>entry_details :=
        [(''blinks_detected'', get_detail r ''blinks_detected'' (PInt 0)),
         (''gaze_movements'', get_detail r ''gaze_movements'' (PInt 0))]\<rparr>"

definition captcha_entry :: "step_result \<Rightarrow> step_entry" where
  "captcha_entry r =
     (basic_entry r)\<lparr>entry_details :=
        [(''captcha_question'', get_detail r ''question'' (PStr [])),
         (''captcha_answer'', get_detail r ''answer'' (PStr [])),
         (''spoken_text'', get_detail r ''spoken_text'' (PStr []))]\<rparr>"

definition skipped_entry :: step_entry where
  "skipped_entry =
     \<lparr>passed = True, entry_confidence = 1,
      entry_message = Some ''Skipped - no reference image provided'',
      entry_error = None, entry_details = []\<rparr>"

text \<open>
  One \<^verbatim>\<open>try\<close> block of the orchestrator: the executor's dictionary is stored under
  the step's key; a passed step adds to the counters, a step that did not pass makes
  the function return at once (\<open>Inl\<close> of the error text put into \<^verbatim>\<open>results\<close>, with
  the steps entered so far), and an exception stores a failed entry and goes on to
  the next step.
\<close>

definition record_step ::
  "string \<Rightarrow> string \<Rightarrow> (step_result \<Rightarrow> step_entry) \<Rightarrow> step_outcome \<Rightarrow> locals \<Rightarrow>
   (string \<times> string list) + locals" where
  "record_step key fail_text entry out l =
     (case out of
        Raised e \<Rightarrow>
          Inr (l\<lparr>step_results := AList.update key (failed_entry e) (step_results l)\<rparr>)
      | Returned r \<Rightarrow>
          (let l' = l\<lparr>step_results := AList.update key (entry r) (step_results l)\<rparr> in
           if success r then
             Inr (l'\<lparr>n_passed := n_passed l' + 1,
                     total_confidence := total_confidence l' + confidence r\<rparr>)
           else Inl (fail_text, executed l)))"

text \<open>
  Step 1 decodes the reference image and calls \<^verbatim>\<open>verify_person\<close> inside one
  \<^verbatim>\<open>try\<close>: a decoding error is an exception of that block, like one raised by the
  executor. \<^verbatim>\<open>if reference_image_data:\<close> is Python truthiness of an optional string.
\<close>

definition person_block ::
  "(string \<Rightarrow> string + 'img) \<Rightarrow> ('img \<Rightarrow> step_outcome) \<Rightarrow> string \<Rightarrow> step_outcome" where
  "person_block decode verify d = (case decode d of Inl e \<Rightarrow> Raised e | Inr img \<Rightarrow> verify img)"

definition truthy :: "string option \<Rightarrow> bool" where
  "truthy d \<longleftrightarrow> d \<noteq> None \<and> d \<noteq> Some []"

definition person_step ::
  "(string \<Rightarrow> string + 'img) \<Rightarrow> ('img \<Rightarrow> step_outcome) \<Rightarrow> string option \<Rightarrow> locals \<Rightarrow>
   (string \<times> string list) + locals" where
  "person_step decode verify reference_image_data l =
     (if truthy reference_image_data then
        record_step ''person_verification'' ''Person verification failed'' basic_entry
          (person_block decode verify (the reference_image_data))
          (l\<lparr>executed := executed l @ [''person_verification'']\<rparr>)
      else
        Inr (l\<lparr>step_results :=
                  AList.update ''person_verification'' skipped_entry (step_results l),
                n_passed := n_passed l + 1,
                total_confidence := total_confidence l + 1\<rparr>))"

definition midas_step :: "step_outcome \<Rightarrow> locals \<Rightarrow> (string \<times> string list) + locals" where
  "midas_step out l =
     record_step ''midas_liveness'' ''2D/3D liveness check failed'' basic_entry out
       (l\<lparr>executed := executed l @ [''midas_liveness'']\<rparr>)"

definition blink_step :: "step_outcome \<Rightarrow> locals \<Rightarrow> (string \<times> string list) + locals" where
  "blink_step out l =
     record_step ''blink_detection'' ''Blink detection failed'' blink_entry out
       (l\<lparr>executed := executed l @ [''blink_detection'']\<rparr>)"

definition captcha_step :: "step_outcome \<Rightarrow> locals \<Rightarrow> (string \<times> string list) + locals" where
  "captcha_step out l =
     record_step ''mouth_captcha'' ''Voice captcha verification failed'' captcha_entry out
       (l\<lparr>executed := executed l @ [''mouth_captcha'']\<rparr>)"

text \<open>
  What the calls made by the orchestrator deliver in one run: \<^verbatim>\<open>decode_image_from_base64\<close>,
  \<^verbatim>\<open>verify_person\<close>, \<^verbatim>\<open>run_liveness_check\<close>, \<^verbatim>\<open>detect_blinks\<close> and
  \<^verbatim>\<open>run_captcha_verification\<close>. The orchestrator is modelled for any executors: the
  object it hands them is the \<^verbatim>\<open>cv2.VideoCapture\<close> of the camera service, on which the
  \<^verbatim>\<open>get_frame()\<close> they call is not defined, so with the executors of this repository
  the call raises inside their own \<^verbatim>\<open>try\<close> and they return their failure dictionary.
\<close>

record 'img executors =
  decode_call :: "string \<Rightarrow> string + 'img"
  person_call :: "'img \<Rightarrow> step_outcome"
  midas_call :: step_outcome
  blink_call :: step_outcome
  captcha_call :: step_outcome

definition final_results :: "real \<Rightarrow> locals \<Rightarrow> pipeline_result" where
  "final_results confidence_threshold l =
     (let final_confidence =
            (if n_passed l > 0 then total_confidence l / real (n_passed l) else 0);
          live = (n_passed l \<ge> 3 \<and> final_confidence \<ge> confidence_threshold)
      in initial_results
           \<lparr>r_success := True, is_live := live, r_confidence := final_confidence,
            steps := step_results l, passed_steps := Some (n_passed l),
            total_steps := Some 4,
            r_message := Some (if live then ''Liveness detection completed successfully''
                               else ''Liveness detection failed'')\<rparr>)"

text \<open>
  The body of the outer \<^verbatim>\<open>try\<close>, after the camera was obtained: the result and the
  steps that were entered.
\<close>

definition run_steps ::
  "real \<Rightarrow> 'img executors \<Rightarrow> string option \<Rightarrow> pipeline_result \<times> string list" where
  "run_steps confidence_threshold ex reference_image_data =
     (case person_step (decode_call ex) (person_call ex) reference_image_data initial_locals of
        Inl (e, called) \<Rightarrow> (initial_results\<lparr>r_error := Some e\<rparr>, called)
      | Inr l1 \<Rightarrow>
     (case midas_step (midas_call ex) l1 of
        Inl (e, called) \<Rightarrow> (initial_results\<lparr>r_error := Some e\<rparr>, called)
      | Inr l2 \<Rightarrow>
     (case blink_step (blink_call ex) l2 of
        Inl (e, called) \<Rightarrow> (initial_results\<lparr>r_error := Some e\<rparr>, called)
      | Inr l3 \<Rightarrow>
     (case captcha_step (captcha_call ex) l3 of
        Inl (e, called) \<Rightarrow> (initial_results\<lparr>r_error := Some e\<rparr>, called)
      | Inr l4 \<Rightarrow> (final_results confidence_threshold l4, executed l4)))))"

text \<open>
  The whole function: camera, steps, and the \<^verbatim>\<open>finally\<close> block that releases the
  camera on every path. It returns the result, the steps entered, the service
  afterwards and the camera trace.
\<close>

definition run_complete_liveness_detection ::
  "real \<Rightarrow> camera_env \<Rightarrow> camera_service \<Rightarrow> 'img executors \<Rightarrow> string option \<Rightarrow>
   pipeline_result \<times> string list \<times> camera_service \<times> cam_event list" where
  "run_complete_liveness_detection confidence_threshold env svc ex reference_image_data =
     (case get_camera env svc of (cam, svc1, tr1) \<Rightarrow>
        (let (res, called) =
               (case cam of
                  None \<Rightarrow> (initial_results\<lparr>r_error := Some ''Camera not available''\<rparr>, [])
                | Some c \<Rightarrow> run_steps confidence_threshold ex reference_image_data);
             (svc2, tr2) = release_camera env svc1
         in (res, called, svc2, tr1 @ tr2)))"

subsection \<open>What a capture loop sees\<close>

text \<open>
  One iteration of a \<^verbatim>\<open>while time.time() - start_time < duration\<close> loop:
  \<^verbatim>\<open>camera.get_frame()\<close> gave nothing (the loop continues), or a frame from which the
  perception back end extracted an observation, or some call raised while the frame
  was handled. Every executor wraps its loop in \<^verbatim>\<open>try/except Exception\<close>, so a fault
  ends it with the failure dictionary. With a duration that is not positive the loop
  body never runs.
\<close>

datatype 'f camera_event = NoFrame | Frame 'f | Fault string

definition seen :: "int \<Rightarrow> 'f camera_event list \<Rightarrow> 'f camera_event list" where
  "seen duration events = (if duration \<le> 0 then [] else events)"

text \<open>\<^verbatim>\<open>np.mean(xs) if xs else 0.0\<close>.\<close>

definition mean_or_zero :: "real list \<Rightarrow> real" where
  "mean_or_zero xs = (if xs = [] then 0 else sum_list xs / real (length xs))"

text \<open>The dictionary returned by the \<^verbatim>\<open>except\<close> clause of an executor.\<close>

definition failure_result :: "string \<Rightarrow> string \<Rightarrow> step_result" where
  "failure_result prefix e =
     \<lparr>success = False, confidence = 0, message = prefix @ e, error = Some e, details = []\<rparr>"

text \<open>The dictionary returned when the models of an executor were not loaded.\<close>

definition not_loaded_result :: "string \<Rightarrow> string \<Rightarrow> step_result" where
  "not_loaded_result msg err =
     \<lparr>success = False, confidence = 0, message = msg, error = Some err, details = []\<rparr>"

subsection \<open>Blink and gaze detection (\<^verbatim>\<open>blink_detection_service.py\<close>)\<close>

text \<open>
  For one detected face the landmark predictor yields the eye aspect ratio of each eye
  and the gaze ratio of each eye.
\<close>

record eye_obs =
  left_ear :: real
  right_ear :: real
  gaze_left :: real
  gaze_right :: real

definition EYE_AR_THRESH :: real where
  "EYE_AR_THRESH = 0.22"

definition EYE_AR_CONSEC_FRAMES :: nat where
  "EYE_AR_CONSEC_FRAMES = 2"

record blink_state =
  counter :: nat
  total_blinks :: nat
  gaze_movements :: nat
  ear_values :: "real list"
  gaze_values :: "real list"
  frame_count :: nat

definition initial_blink_state :: blink_state where
  "initial_blink_state =
     \<lparr>counter = 0, total_blinks = 0, gaze_movements = 0, ear_values = [], gaze_values = [],
      frame_count = 0\<rparr>"

text \<open>The body of \<^verbatim>\<open>for rect in rects\<close>.\<close>

definition blink_face :: "eye_obs \<Rightarrow> blink_state \<Rightarrow> blink_state" where
  "blink_face f s =
     (let ear = (left_ear f + right_ear f) / 2;
          s1 = s\<lparr>ear_values := ear_values s @ [ear]\<rparr>;
          s2 = (if ear < EYE_AR_THRESH then s1\<lparr>counter := counter s1 + 1\<rparr>
                else s1\<lparr>total_blinks :=
                           (if counter s1 \<ge> EYE_AR_CONSEC_FRAMES then total_blinks s1 + 1
                            else total_blinks s1),
                         counter := 0\<rparr>);
          gaze_avg = (gaze_left f + gaze_right f) / 2;
          s3 = s2\<lparr>gaze_values := gaze_values s2 @ [gaze_avg]\<rparr>
      in if gaze_avg \<le> 0.8 \<or> gaze_avg \<ge> 1.5
         then s3\<lparr>gaze_movements := gaze_movements s3 + 1\<rparr> else s3)"

fun blink_loop :: "eye_obs list camera_event list \<Rightarrow> blink_state \<Rightarrow> string + blink_state" where
  "blink_loop [] s = Inr s"
| "blink_loop (NoFrame # es) s = blink_loop es s"
| "blink_loop (Frame faces # es) s =
     blink_loop es (fold blink_face faces (s\<lparr>frame_count := frame_count s + 1\<rparr>))"
| "blink_loop (Fault e # es) s = Inl e"

definition detect_blinks :: "bool \<Rightarrow> int \<Rightarrow> eye_obs list camera_event list \<Rightarrow> step_result" where
  "detect_blinks model_loaded duration events =
     (if \<not> model_loaded then
        not_loaded_result ''Blink detection models not loaded'' ''Models not available''
      else
        (case blink_loop (seen duration events) initial_blink_state of
           Inl e \<Rightarrow> failure_result ''Blink detection failed: '' e
         | Inr s \<Rightarrow>
             (let blink_score = min 1 (real (total_blinks s) / 2);
                  gaze_score = min 1 (real (gaze_movements s) / 3);
                  conf = (blink_score + gaze_score) / 2;
                  ok = (total_blinks s \<ge> 1 \<and> gaze_movements s \<ge> 2)
              in \<lparr>success = ok, confidence = conf,
                  message = (if ok then ''Blink detection completed successfully''
                             else ''Insufficient blink/gaze activity detected''),
                  error = None,
                  details =
                    [(''blinks_detected'', PInt (int (total_blinks s))),
                     (''gaze_movements'', PInt (int (gaze_movements s))),
                     (''frames_processed'', PInt (int (frame_count s))),
                     (''avg_ear'', PReal (mean_or_zero (ear_values s))),
                     (''avg_gaze'', PReal (mean_or_zero (gaze_values s)))]\<rparr>)))"

subsection \<open>2D/3D liveness (\<^verbatim>\<open>midas_liveness_service.py\<close>)\<close>

text \<open>\<^verbatim>\<open>np.var\<close> and \<^verbatim>\<open>np.std\<close> of a non-empty array (population variance).\<close>

definition np_var :: "real list \<Rightarrow> real" where
  "np_var xs =
     (let m = sum_list xs / real (length xs)
      in sum_list (map (\<lambda>x. (x - m)\<^sup>2) xs) / real (length xs))"

definition np_std :: "real list \<Rightarrow> real" where
  "np_std xs = sqrt (np_var xs)"

text \<open>
  \<^verbatim>\<open>liveness_decision\<close>. The pose angles, the depth region and the face size are
  parameters that the body does not read; the motion condition and the motion
  confidence are the constants the source sets "for API mode".
\<close>

definition liveness_decision ::
  "real \<Rightarrow> real \<Rightarrow> real \<Rightarrow> real \<Rightarrow> real \<Rightarrow> real list \<Rightarrow> int \<Rightarrow> real \<Rightarrow> real \<Rightarrow>
   bool \<times> bool \<times> bool \<times> real" where
  "liveness_decision depth_std_face reproj_err yaw pitch roll depth_roi face_size
       depth_thresh motion_thresh =
     (let cond_depth = (depth_std_face > depth_thresh);
          cond_pnp = (reproj_err < 12.0);
          cond_motion = True;
          depth_conf = min 1.0 (depth_std_face / (depth_thresh * 2));
          pnp_conf = max 0.0 (1.0 - (reproj_err / 12.0));
          motion_conf = 0.5;
          total_confidence = (depth_conf * 0.4 + pnp_conf * 0.3 + motion_conf * 0.3);
          is_live = ((cond_depth \<and> cond_pnp) \<and> (total_confidence > 0.7))
      in (is_live, cond_depth, cond_pnp, total_confidence))"

text \<open>
  What the back ends deliver for one frame: the mean brightness of the grey image, and,
  when the face mesh found landmarks, the pose solved from the six model points (if
  \<^verbatim>\<open>solvePnP\<close> succeeded), the face size and the depth values of the region of
  interest that the frame's branch cut out (possibly empty).
\<close>

record pose =
  reproj :: real
  yaw_deg :: real
  pitch_deg :: real
  roll_deg :: real

record face_obs =
  solved :: "pose option"
  size_px :: int
  roi :: "real list"

record frame_obs =
  brightness :: real
  face :: "face_obs option"

text \<open>
  The part of the loop body that follows the depth estimation: the adaptive threshold,
  the defaults \<^verbatim>\<open>0.0, 1e9, 0.0, 0.0, 0.0\<close> overwritten where the frame has a face, and
  the call of \<^verbatim>\<open>liveness_decision\<close>.
\<close>

definition adaptive_depth_thresh :: "real \<Rightarrow> real" where
  "adaptive_depth_thresh b = 3.0 * (0.8 + 0.4 * (b / 128.0))"

definition depth_std_of :: "frame_obs \<Rightarrow> real" where
  "depth_std_of f =
     (case face f of None \<Rightarrow> 0
      | Some fo \<Rightarrow> if roi fo \<noteq> [] then np_std (roi fo) else 0)"

definition pose_of :: "frame_obs \<Rightarrow> pose" where
  "pose_of f =
     (case face f of
        None \<Rightarrow> \<lparr>reproj = 1000000000, yaw_deg = 0, pitch_deg = 0, roll_deg = 0\<rparr>
      | Some fo \<Rightarrow>
          (case solved fo of
             None \<Rightarrow> \<lparr>reproj = 1000000000, yaw_deg = 0, pitch_deg = 0, roll_deg = 0\<rparr>
           | Some p \<Rightarrow> p))"

definition frame_vote :: "frame_obs \<Rightarrow> bool \<times> bool \<times> bool \<times> real" where
  "frame_vote f =
     liveness_decision (depth_std_of f) (reproj (pose_of f)) (yaw_deg (pose_of f))
       (pitch_deg (pose_of f)) (roll_deg (pose_of f))
       (case face f of None \<Rightarrow> [] | Some fo \<Rightarrow> roi fo)
       (case face f of None \<Rightarrow> 0 | Some fo \<Rightarrow> size_px fo)
       (adaptive_depth_thresh (brightness f)) 0.2"

text \<open>\<^verbatim>\<open>deque(maxlen=n).append(x)\<close>: the oldest element is dropped when the deque is full.\<close>

definition deque_append :: "nat \<Rightarrow> 'a list \<Rightarrow> 'a \<Rightarrow> 'a list" where
  "deque_append n xs x = (let ys = xs @ [x] in drop (length ys - n) ys)"

record midas_state =
  live_votes :: "bool list"
  confidence_scores :: "real list"
  frames_processed :: nat

definition initial_midas_state :: midas_state where
  "initial_midas_state = \<lparr>live_votes = [], confidence_scores = [], frames_processed = 0\<rparr>"

definition midas_frame :: "nat \<Rightarrow> frame_obs \<Rightarrow> midas_state \<Rightarrow> midas_state" where
  "midas_frame maxlen f s =
     (case frame_vote f of (live, ok_depth, ok_pnp, conf) \<Rightarrow>
        s\<lparr>frames_processed := frames_processed s + 1,
          live_votes := deque_append maxlen (live_votes s) live,
          confidence_scores := confidence_scores s @ [conf]\<rparr>)"

text \<open>
  The module imports \<^verbatim>\<open>torch\<close> only inside \<^verbatim>\<open>_load_models\<close>, where the name is local;
  \<^verbatim>\<open>run_liveness_check\<close> reads it as a global in \<^verbatim>\<open>with torch.no_grad():\<close>, and no
  global of that name exists. Reading it raises \<^verbatim>\<open>NameError\<close> (the text of the error
  is given without its quotation marks).
\<close>

definition torch_no_grad :: "string + unit" where
  "torch_no_grad = Inl ''name torch is not defined''"

text \<open>
  The loop. A frame that the camera delivers is counted and converted, and then the
  depth is to be estimated under \<^verbatim>\<open>torch.no_grad()\<close>: the error of that line ends the
  loop in the \<^verbatim>\<open>except\<close> clause, so the rest of the body (\<open>midas_frame\<close>: landmarks,
  region of interest, vote) is written in the source and never reached. A pressed
  \<^verbatim>\<open>q\<close> key ends the loop as the end of the budget does: the event list is what the
  loop handled before it stopped.
\<close>

fun midas_loop :: "nat \<Rightarrow> frame_obs camera_event list \<Rightarrow> midas_state \<Rightarrow> string + midas_state" where
  "midas_loop maxlen [] s = Inr s"
| "midas_loop maxlen (NoFrame # es) s = midas_loop maxlen es s"
| "midas_loop maxlen (Frame f # es) s =
     (case torch_no_grad of
        Inl e \<Rightarrow> Inl e
      | Inr u \<Rightarrow> midas_loop maxlen es (midas_frame maxlen f s))"
| "midas_loop maxlen (Fault e # es) s = Inl e"

text \<open>\<^verbatim>\<open>sum(live_votes)\<close>: the number of true votes.\<close>

definition count_true :: "bool list \<Rightarrow> nat" where
  "count_true vs = length (filter (\<lambda>v. v) vs)"

text \<open>
  \<^verbatim>\<open>run_liveness_check\<close>. A negative duration makes \<^verbatim>\<open>deque(maxlen=...)\<close> raise; with
  no vote at all the log line after the decision divides by \<^verbatim>\<open>len(live_votes)\<close> and
  raises too. Both end in the \<^verbatim>\<open>except\<close> clause. The two \<^verbatim>\<open>avg_\<close> keys of the result,
  taken from the last frame only, are left out.
\<close>

definition run_liveness_check :: "bool \<Rightarrow> int \<Rightarrow> frame_obs camera_event list \<Rightarrow> step_result" where
  "run_liveness_check model_loaded duration events =
     (if \<not> model_loaded then
        not_loaded_result ''MiDaS/MediaPipe models not loaded'' ''Models not available''
      else if duration < 0 then
        failure_result ''2D/3D liveness check failed: '' ''maxlen must be non-negative''
      else
        (case midas_loop (nat (duration * 30)) (seen duration events) initial_midas_state of
           Inl e \<Rightarrow> failure_result ''2D/3D liveness check failed: '' e
         | Inr s \<Rightarrow>
             (if length (live_votes s) = 0 then
                failure_result ''2D/3D liveness check failed: '' ''division by zero''
              else
                (let final_live =
                       (real (count_true (live_votes s)) / real (length (live_votes s)) > 0.6);
                     final_confidence = mean_or_zero (confidence_scores s)
                 in \<lparr>success = final_live, confidence = final_confidence,
                     message = (if final_live then ''2D/3D liveness check completed successfully''
                                else ''2D/3D liveness check failed''),
                     error = None,
                     details =
                       [(''live_votes'', PInt (int (count_true (live_votes s)))),
                        (''total_votes'', PInt (int (length (live_votes s)))),
                        (''frames_processed'', PInt (int (frames_processed s)))]\<rparr>))))"




subsection \<open>Person verification (\<^verbatim>\<open>person_verification_service.py\<close>)\<close>

text \<open>
  A face is known by its embedding, a vector of reals. \<^verbatim>\<open>np.linalg.norm\<close>, the division
  of a vector by its norm, and \<^verbatim>\<open>np.dot\<close>, which raises when the lengths differ. (Where
  numpy divides by a zero norm and yields \<^verbatim>\<open>nan\<close>, division in HOL yields 0: the
  properties below assume embeddings that are not zero.)
\<close>

definition linalg_norm :: "real list \<Rightarrow> real" where
  "linalg_norm v = sqrt (sum_list (map (\<lambda>x. x\<^sup>2) v))"

definition normalised :: "real list \<Rightarrow> real list" where
  "normalised v = map (\<lambda>x. x / linalg_norm v) v"

definition np_dot :: "real list \<Rightarrow> real list \<Rightarrow> string + real" where
  "np_dot a b =
     (if length a = length b then Inr (sum_list (map2 (*) a b))
      else Inl ''shapes not aligned'')"

record person_state =
  verified :: bool
  pv_confidence_scores :: "real list"
  pv_frame_count :: nat

definition initial_person_state :: person_state where
  "initial_person_state = \<lparr>verified = False, pv_confidence_scores = [], pv_frame_count = 0\<rparr>"

text \<open>
  The loop of \<^verbatim>\<open>verify_person\<close>: a frame observation is the list of the embeddings of
  the faces found in it. A frame with no face or with several faces is only annotated;
  the loop goes on.
\<close>

fun person_loop ::
  "real list \<Rightarrow> real list list camera_event list \<Rightarrow> person_state \<Rightarrow> string + person_state" where
  "person_loop ref_emb [] s = Inr s"
| "person_loop ref_emb (NoFrame # es) s = person_loop ref_emb es s"
| "person_loop ref_emb (Fault e # es) s = Inl e"
| "person_loop ref_emb (Frame faces # es) s =
     (let s1 = s\<lparr>pv_frame_count := pv_frame_count s + 1\<rparr> in
      if length faces = 0 then person_loop ref_emb es s1
      else if length faces > 1 then person_loop ref_emb es s1
      else
        (case np_dot ref_emb (normalised (hd faces)) of
           Inl e \<Rightarrow> Inl e
         | Inr similarity \<Rightarrow>
             person_loop ref_emb es
               (s1\<lparr>pv_confidence_scores := pv_confidence_scores s1 @ [similarity],
                   verified := (if similarity > 0.5 then True else verified s1)\<rparr>)))"

definition verify_person ::
  "bool \<Rightarrow> real list list \<Rightarrow> int \<Rightarrow> real list list camera_event list \<Rightarrow> step_result" where
  "verify_person model_loaded ref_faces duration events =
     (if \<not> model_loaded then
        not_loaded_result ''InsightFace model not loaded'' ''Model not available''
      else if length ref_faces \<noteq> 1 then
        \<lparr>success = False, confidence = 0,
         message = ''Reference image must contain exactly one face'',
         error = Some ''Invalid reference image'', details = []\<rparr>
      else
        (case person_loop (normalised (hd ref_faces)) (seen duration events)
                initial_person_state of
           Inl e \<Rightarrow> failure_result ''Person verification failed: '' e
         | Inr s \<Rightarrow>
             \<lparr>success = verified s,
              confidence = mean_or_zero (pv_confidence_scores s),
              message = ''Person verification completed'',
              error = None,
              details =
                [(''frames_processed'', PInt (int (pv_frame_count s))),
                 (''confidence_scores'', PReals (pv_confidence_scores s))]\<rparr>))"

text \<open>
  The stand-alone variant, \<^verbatim>\<open>PersonVerificationAndMonitor.run\<close> of
  \<^verbatim>\<open>legacy/person_check.py\<close>: \<^verbatim>\<open>verify_face\<close> gives \<^verbatim>\<open>None\<close> for a wrong number of
  faces, and \<^verbatim>\<open>run\<close> returns false at once on \<^verbatim>\<open>None\<close> and on a wrong person. It does
  not guard against a missing frame, and nothing in it catches an exception. The result
  carries the number of frames looked at.
\<close>

definition legacy_verify_face :: "real list \<Rightarrow> real list list \<Rightarrow> string + bool option" where
  "legacy_verify_face ref_emb faces =
     (if length faces \<noteq> 1 then Inr None
      else (case np_dot ref_emb (normalised (hd faces)) of
              Inl e \<Rightarrow> Inl e
            | Inr sim \<Rightarrow> Inr (Some (sim > 0.5))))"

fun legacy_run ::
  "real list \<Rightarrow> real list list camera_event list \<Rightarrow> bool \<Rightarrow> nat \<Rightarrow> string + (bool \<times> nat)" where
  "legacy_run ref_emb [] found n = Inr (found, n)"
| "legacy_run ref_emb (NoFrame # es) found n =
     Inl ''NoneType object has no attribute copy''"
| "legacy_run ref_emb (Fault e # es) found n = Inl e"
| "legacy_run ref_emb (Frame faces # es) found n =
     (case legacy_verify_face ref_emb faces of
        Inl e \<Rightarrow> Inl e
      | Inr None \<Rightarrow> Inr (False, n + 1)
      | Inr (Some True) \<Rightarrow> legacy_run ref_emb es True (n + 1)
      | Inr (Some False) \<Rightarrow> Inr (False, n + 1))"

subsection \<open>Python strings\<close>

text \<open>
  Strings are restricted to ASCII. \<^verbatim>\<open>str.split()\<close> without arguments splits at runs of
  white space and yields no empty token; \<^verbatim>\<open>str.strip()\<close> removes white space at both
  ends; \<^verbatim>\<open>str.isdigit()\<close> holds for a non-empty string of digits.
\<close>

definition is_space :: "char \<Rightarrow> bool" where
  "is_space c \<longleftrightarrow> c \<in> set [CHR 0x20, CHR 0x09, CHR 0x0A, CHR 0x0B, CHR 0x0C, CHR 0x0D,
                              CHR 0x1C, CHR 0x1D, CHR 0x1E, CHR 0x1F]"

definition is_digit :: "char \<Rightarrow> bool" where
  "is_digit c \<longleftrightarrow> 48 \<le> (of_char c :: nat) \<and> (of_char c :: nat) \<le> 57"

definition digit_value :: "char \<Rightarrow> nat" where
  "digit_value c = of_char c - 48"

fun split_from :: "string \<Rightarrow> string \<Rightarrow> string list" where
  "split_from cur [] = (if cur = [] then [] else [cur])"
| "split_from cur (c # cs) =
     (if is_space c then (if cur = [] then split_from [] cs else cur # split_from [] cs)
      else split_from (cur @ [c]) cs)"

definition py_split :: "string \<Rightarrow> string list" where
  "py_split s = split_from [] s"

definition py_strip :: "string \<Rightarrow> string" where
  "py_strip s = rev (dropWhile is_space (rev (dropWhile is_space s)))"

definition py_isdigit :: "string \<Rightarrow> bool" where
  "py_isdigit s \<longleftrightarrow> s \<noteq> [] \<and> list_all is_digit s"

text \<open>
  \<^verbatim>\<open>int(token)\<close> for a token without white space: an optional sign, then digits,
  possibly with single underscores between digits. \<open>None\<close> stands for \<^verbatim>\<open>ValueError\<close>.
\<close>

fun int_body :: "bool \<Rightarrow> nat \<Rightarrow> string \<Rightarrow> nat option" where
  "int_body prev_digit acc [] = (if prev_digit then Some acc else None)"
| "int_body prev_digit acc (c # cs) =
     (if is_digit c then int_body True (acc * 10 + digit_value c) cs
      else if c = CHR ''_'' \<and> prev_digit then int_body False acc cs
      else None)"

definition py_int :: "string \<Rightarrow> int option" where
  "py_int s =
     (case s of
        [] \<Rightarrow> None
      | c # cs \<Rightarrow>
          if c = CHR ''-'' then map_option (\<lambda>n. - int n) (int_body False 0 cs)
          else if c = CHR ''+'' then map_option int (int_body False 0 cs)
          else map_option int (int_body False 0 s))"

text \<open>\<^verbatim>\<open>str(n)\<close> of an integer.\<close>

function str_nat :: "nat \<Rightarrow> string" where
  "str_nat n =
     (if n < 10 then [''0123456789'' ! n]
      else str_nat (n div 10) @ [''0123456789'' ! (n mod 10)])"
  by pat_completeness auto
termination
  by (relation "measure id") auto

definition py_str :: "int \<Rightarrow> string" where
  "py_str i = (if i < 0 then CHR ''-'' # str_nat (nat (- i)) else str_nat (nat i))"

subsection \<open>Voice captcha (\<^verbatim>\<open>mouth_captcha_service.py\<close>)\<close>

text \<open>
  The number heard: \<^verbatim>\<open>str(w2n.word_to_num(spoken_text))\<close> where the library finds a
  number (the library is a parameter: it gives the printed number, or \<open>None\<close> where it
  raises), else the first token of the text that is all digits.
\<close>

definition recognize_number :: "(string \<Rightarrow> string option) \<Rightarrow> string \<Rightarrow> string option" where
  "recognize_number word_to_num spoken_text =
     (case word_to_num spoken_text of
        Some s \<Rightarrow> Some s
      | None \<Rightarrow> find py_isdigit (py_split spoken_text))"

text \<open>
  The inner \<^verbatim>\<open>try\<close> of \<^verbatim>\<open>verify_uploaded_audio\<close>: the answer of a caller-supplied
  expression, \<open>None\<close> where any of its statements raises. Every operator other than
  \<^verbatim>\<open>+\<close> subtracts.
\<close>

definition parse_expression :: "string \<Rightarrow> int option" where
  "parse_expression expression =
     (case py_split (filter (\<lambda>c. c \<noteq> CHR ''='') expression) of
        t0 # t1 # t2 # rest \<Rightarrow>
          (case py_int t0 of
             None \<Rightarrow> None
           | Some a \<Rightarrow>
               (case py_int t2 of
                  None \<Rightarrow> None
                | Some b \<Rightarrow> Some (if t1 = ''+'' then a + b else a - b)))
      | _ \<Rightarrow> None)"

text \<open>The draws of \<^verbatim>\<open>random\<close> in one call.\<close>

record draws =
  draw_a :: int
  draw_b :: int
  draw_plus :: bool

definition op_text :: "draws \<Rightarrow> string" where
  "op_text d = (if draw_plus d then ''+'' else ''-'')"

text \<open>
  \<^verbatim>\<open>verify_uploaded_audio\<close>. The recogniser is external: decoding and recognising the
  audio either raises or yields the partial results of the chunks and the final text.
\<close>

definition join_partials :: "string list \<Rightarrow> string" where
  "join_partials ps = foldl (\<lambda>acc p. if p \<noteq> [] then acc @ '' '' @ p else acc) [] ps"

definition verify_uploaded_audio ::
  "bool \<Rightarrow> (string \<Rightarrow> string option) \<Rightarrow> draws \<Rightarrow> string + (string list \<times> string) \<Rightarrow>
   string option \<Rightarrow> step_result" where
  "verify_uploaded_audio model_loaded word_to_num d recognition expression =
     (if \<not> model_loaded then
        not_loaded_result ''Mouth captcha models not loaded'' ''Models not available''
      else
        (let answer =
               (if truthy expression then parse_expression (the expression)
                else Some (if draw_plus d then draw_a d + draw_b d else draw_a d - draw_b d));
             expression' =
               (if truthy expression then the expression
                else py_str (draw_a d) @ '' '' @ op_text d @ '' '' @ py_str (draw_b d));
             expected = map_option (\<lambda>a. py_str (abs a)) answer
         in case recognition of
              Inl e \<Rightarrow> failure_result ''Voice captcha upload verification failed: '' e
            | Inr (partials, final) \<Rightarrow>
                (let spoken_text = py_strip (join_partials partials @ '' '' @ final);
                     recognized_number = recognize_number word_to_num spoken_text;
                     ok = (case expected of
                             Some ex \<Rightarrow> recognized_number = Some ex
                           | None \<Rightarrow> truthy recognized_number);
                     conf = (case expected of
                               Some ex \<Rightarrow>
                                 (if ok then 1 else if truthy recognized_number then 0.5 else 0)
                             | None \<Rightarrow> (if ok then 0.5 else 0))
                 in \<lparr>success = ok, confidence = conf,
                     message = (if ok then ''Voice captcha (upload) completed successfully''
                                else ''Voice captcha (upload) failed''),
                     error = None,
                     details =
                       [(''question'',
                           (if expression' \<noteq> [] then PStr (expression' @ '' = ?'') else PNone)),
                        (''answer'', (case expected of Some ex \<Rightarrow> PStr ex | None \<Rightarrow> PNone)),
                        (''spoken_text'', PStr spoken_text),
                        (''recognized_number'',
                           (case recognized_number of Some n \<Rightarrow> PStr n | None \<Rightarrow> PNone))]\<rparr>)))"

text \<open>
  \<^verbatim>\<open>run_captcha_verification\<close>. A frame observation is the mouth aspect ratio of every
  face found in the frame and the text the recogniser completed on the audio chunk
  taken in the same iteration (empty when none). Setting up the audio stream may raise.
  The \<^verbatim>\<open>frames_processed\<close> key of the result is left out.
\<close>

fun captcha_loop ::
  "(real list \<times> string) camera_event list \<Rightarrow> real list \<times> string \<Rightarrow> string + (real list \<times> string)" where
  "captcha_loop [] acc = Inr acc"
| "captcha_loop (NoFrame # es) acc = captcha_loop es acc"
| "captcha_loop (Fault e # es) acc = Inl e"
| "captcha_loop (Frame (mars, heard) # es) (mar_movement, spoken_text) =
     captcha_loop es
       (mar_movement @ mars,
        (if heard \<noteq> [] then spoken_text @ '' '' @ heard else spoken_text))"

definition captcha_answer_of :: "draws \<Rightarrow> int" where
  "captcha_answer_of d =
     (let answer = (if draw_plus d then draw_a d + draw_b d else draw_a d - draw_b d);
          answer1 = (if answer < 0 then abs answer else answer)
      in if answer1 > 99 then answer1 mod 100 else answer1)"

definition run_captcha_verification ::
  "bool \<Rightarrow> (string \<Rightarrow> string option) \<Rightarrow> draws \<Rightarrow> string option \<Rightarrow> int \<Rightarrow>
   (real list \<times> string) camera_event list \<Rightarrow> step_result" where
  "run_captcha_verification model_loaded word_to_num d audio_fault duration events =
     (if \<not> model_loaded then
        not_loaded_result ''Mouth captcha models not loaded'' ''Models not available''
      else
        (let captcha_question =
               py_str (draw_a d) @ '' '' @ op_text d @ '' '' @ py_str (draw_b d) @ '' = ?'';
             captcha_answer = py_str (captcha_answer_of d)
         in case audio_fault of
              Some e \<Rightarrow> failure_result ''Mouth captcha verification failed: '' e
            | None \<Rightarrow>
                (case captcha_loop (seen duration events) ([], []) of
                   Inl e \<Rightarrow> failure_result ''Mouth captcha verification failed: '' e
                 | Inr (mar_movement, spoken) \<Rightarrow>
                     (let avg_mar_change = (if mar_movement \<noteq> [] then np_std mar_movement else 0);
                          spoken_text = py_strip spoken;
                          recognized_number = recognize_number word_to_num spoken_text;
                          mar_score = min 1.0 (avg_mar_change / 0.02);
                          answer_score = (if recognized_number = Some captcha_answer then 1.0 else 0.0);
                          conf = (mar_score + answer_score) / 2.0;
                          ok = (avg_mar_change > 0.01 \<and> recognized_number = Some captcha_answer)
                      in \<lparr>success = ok, confidence = conf,
                          message =
                            (if ok then ''Voice captcha verification completed successfully''
                             else ''Voice captcha verification failed''),
                          error = None,
                          details =
                            [(''question'', PStr captcha_question),
                             (''answer'', PStr captcha_answer),
                             (''spoken_text'', PStr spoken_text),
                             (''recognized_number'',
                                (case recognized_number of Some n \<Rightarrow> PStr n | None \<Rightarrow> PNone)),
                             (''mar_variation'', PReal avg_mar_change)]\<rparr>))))"

subsection \<open>Notions used to state the properties of the orchestrator\<close>



text \<open>
  The counters of the orchestrator agree with the entries stored so far: this is the
  loop invariant of the four \<^verbatim>\<open>try\<close> blocks.
\<close>

definition locals_ok :: "locals \<Rightarrow> bool" where
  "locals_ok l \<longleftrightarrow>
     n_passed l = length (filter passed (map snd (step_results l))) \<and>
     total_confidence l = sum_list (map entry_confidence (filter passed (map snd (step_results l))))"

text \<open>\<^verbatim>\<open>self.config['confidence_threshold']\<close>, set in the constructor and never changed.\<close>

definition config_confidence_threshold :: real where
  "config_confidence_threshold = 0.7"

text \<open>Sample inputs: a camera that opens, and executors with given outcomes.\<close>

definition demo_env :: camera_env where
  "demo_env = \<lparr>construct = Inr True, release_raises = False\<rparr>"

definition demo_service :: camera_service where
  "demo_service = \<lparr>camera = None\<rparr>"

definition step_ok :: "real \<Rightarrow> step_outcome" where
  "step_ok c = Returned \<lparr>success = True, confidence = c, message = ''ok'', error = None, details = []\<rparr>"

definition step_failed :: "real \<Rightarrow> string \<Rightarrow> step_outcome" where
  "step_failed c m = Returned \<lparr>success = False, confidence = c, message = m, error = None, details = []\<rparr>"

definition demo_executors :: "step_outcome \<Rightarrow> step_outcome \<Rightarrow> step_outcome \<Rightarrow> unit executors" where
  "demo_executors m b c =
     \<lparr>decode_call = (\<lambda>d. Inr ()), person_call = (\<lambda>img. step_ok 0.9),
      midas_call = m, blink_call = b, captcha_call = c\<rparr>"

text \<open>
  An executor's outcome that makes the orchestrator return early: a returned dictionary
  whose \<^verbatim>\<open>success\<close> is false. (An exception does not.)
\<close>

definition not_passed :: "step_outcome \<Rightarrow> bool" where
  "not_passed out = (case out of Returned r \<Rightarrow> \<not> success r | Raised e \<Rightarrow> False)"

text \<open>
  The \<^verbatim>\<open>try\<close> blocks a run goes through, in order, each with its key, the error text
  of its early return, the entry it stores and the outcome of its executor; and the
  same four blocks run as a loop, which \<open>run_steps\<close> is shown to equal.
\<close>

record block =
  block_key :: string
  block_text :: string
  block_entry :: "step_result \<Rightarrow> step_entry"
  block_outcome :: step_outcome

definition step_blocks :: "'img executors \<Rightarrow> string option \<Rightarrow> block list" where
  "step_blocks ex reference_image_data =
     (if truthy reference_image_data then
        [\<lparr>block_key = ''person_verification'', block_text = ''Person verification failed'',
          block_entry = basic_entry,
          block_outcome = person_block (decode_call ex) (person_call ex) (the reference_image_data)\<rparr>]
      else []) @
     [\<lparr>block_key = ''midas_liveness'', block_text = ''2D/3D liveness check failed'',
       block_entry = basic_entry, block_outcome = midas_call ex\<rparr>,
      \<lparr>block_key = ''blink_detection'', block_text = ''Blink detection failed'',
       block_entry = blink_entry, block_outcome = blink_call ex\<rparr>,
      \<lparr>block_key = ''mouth_captcha'', block_text = ''Voice captcha verification failed'',
       block_entry = captcha_entry, block_outcome = captcha_call ex\<rparr>]"

fun enter_blocks :: "block list \<Rightarrow> locals \<Rightarrow> (string \<times> string list) + locals" where
  "enter_blocks [] l = Inr l"
| "enter_blocks (b # bs) l =
     (case record_step (block_key b) (block_text b) (block_entry b) (block_outcome b)
             (l\<lparr>executed := executed l @ [block_key b]\<rparr>) of
        Inl a \<Rightarrow> Inl a
      | Inr l' \<Rightarrow> enter_blocks bs l')"

definition after_skip :: locals where
  "after_skip = initial_locals\<lparr>step_results := [(''person_verification'', skipped_entry)],
                   n_passed := 1, total_confidence := 1\<rparr>"

text \<open>A sample run in which the third step does not pass; a camera whose construction raises.\<close>

definition blink_failing_run ::
  "pipeline_result \<times> string list \<times> camera_service \<times> cam_event list" where
  "blink_failing_run =
     run_complete_liveness_detection config_confidence_threshold demo_env demo_service
       (demo_executors (step_ok (4 / 5)) (step_failed (1 / 4) ''Insufficient blink/gaze activity detected'')
          (step_ok 1))
       (Some ''img'')"

definition unavailable_env :: camera_env where
  "unavailable_env = \<lparr>construct = Inl ''cannot open device'', release_raises = False\<rparr>"

subsection \<open>Notions used to state the properties of blink detection\<close>

text \<open>
  The eye aspect ratios the loop processes, in order: one value for every detected
  face of every frame.
\<close>

definition ear_of :: "eye_obs \<Rightarrow> real" where
  "ear_of f = (left_ear f + right_ear f) / 2"

fun ears_of :: "eye_obs list camera_event list \<Rightarrow> real list" where
  "ears_of [] = []"
| "ears_of (Frame faces # es) = map ear_of faces @ ears_of es"
| "ears_of (e # es) = ears_of es"

text \<open>
  The count in the words of the specification: a blink is completed at position \<open>i\<close>
  of the sequence when the two values before it are below the threshold (the eye
  stayed closed for at least two consecutive values) and the value at \<open>i\<close> has come
  back, that is, it is no longer below the threshold.
\<close>

definition blink_completed_at :: "real list \<Rightarrow> nat \<Rightarrow> bool" where
  "blink_completed_at ears i \<longleftrightarrow>
     2 \<le> i \<and> i < length ears \<and> ears ! (i - 2) < 0.22 \<and> ears ! (i - 1) < 0.22 \<and>
     \<not> ears ! i < 0.22"

definition blinks_in :: "real list \<Rightarrow> nat" where
  "blinks_in ears = length (filter (blink_completed_at ears) [0..<length ears])"

text \<open>The debounce counter and the blink total alone, over a sequence of ratios.\<close>

fun debounce :: "real list \<Rightarrow> nat \<times> nat \<Rightarrow> nat \<times> nat" where
  "debounce [] ct = ct"
| "debounce (ear # ears) (c, t) =
     debounce ears (if ear < EYE_AR_THRESH then (c + 1, t)
                    else (0, if c \<ge> EYE_AR_CONSEC_FRAMES then t + 1 else t))"

text \<open>The length of the run of values below the threshold that ends the sequence.\<close>

definition low_run :: "real list \<Rightarrow> nat" where
  "low_run ears = length (takeWhile (\<lambda>e. e < 0.22) (rev ears))"

text \<open>A face with the given eye aspect ratio in both eyes and a steady gaze.\<close>

definition face_with_ear :: "real \<Rightarrow> eye_obs" where
  "face_with_ear e = \<lparr>left_ear = e, right_ear = e, gaze_left = 1, gaze_right = 1\<rparr>"

subsection \<open>Notions used to state the properties of the 2D/3D liveness check\<close>

text \<open>The observations of the frames a loop handled, in order.\<close>

fun frames_of :: "'f camera_event list \<Rightarrow> 'f list" where
  "frames_of [] = []"
| "frames_of (Frame f # es) = f # frames_of es"
| "frames_of (e # es) = frames_of es"

text \<open>
  Sample frames: a face with depth relief and an exact pose fit, for which
  \<^verbatim>\<open>liveness_decision\<close> gives a live vote with confidence 0.85, and a frame without a
  face, for which it gives a vote that is not live with confidence 0.15; and the camera
  events of \<open>k\<close> of the first followed by \<open>m\<close> of the second.
\<close>

definition live_frame :: frame_obs where
  "live_frame = \<lparr>brightness = 128,
     face = Some \<lparr>solved = Some \<lparr>reproj = 0, yaw_deg = 5, pitch_deg = 0, roll_deg = 0\<rparr>,
                  size_px = 200, roi = [0, 16]\<rparr>\<rparr>"

definition empty_frame :: frame_obs where
  "empty_frame = \<lparr>brightness = 128, face = None\<rparr>"

definition vote_events :: "nat \<Rightarrow> nat \<Rightarrow> frame_obs camera_event list" where
  "vote_events k m = map Frame (replicate k live_frame @ replicate m empty_frame)"

subsection \<open>Notions used to state the properties of the other executors\<close>



text \<open>
  The counters of the orchestrator stay within bounds: the sum of the confidences lies
  between the number of passed steps times the lower and times the upper bound.
\<close>

definition totals_within :: "real \<Rightarrow> real \<Rightarrow> locals \<Rightarrow> bool" where
  "totals_within lo hi l \<longleftrightarrow>
     real (n_passed l) * lo \<le> total_confidence l \<and> total_confidence l \<le> real (n_passed l) * hi"

definition mixed_person_events :: "real list list camera_event list" where
  "mixed_person_events = [Frame [[1, 0]], Frame [[- 1, 0]], NoFrame, Frame [[- 1, 0]]]"

definition passing_run ::
  "pipeline_result \<times> string list \<times> camera_service \<times> cam_event list" where
  "passing_run =
     run_complete_liveness_detection config_confidence_threshold demo_env demo_service
       (demo_executors (step_ok (4 / 5)) (step_ok (1 / 2)) (step_ok 1)) (Some ''img'')"

section \<open>Properties\<close>

subsection \<open>The orchestrator\<close>

lemma update_fresh: "k \<notin> fst ` set al \<Longrightarrow> AList.update k v al = al @ [(k, v)]"
  by (induction al) auto

lemma record_step_ok:
  assumes "record_step k ft entry out l = Inr l'" "locals_ok l" "k \<notin> fst ` set (step_results l)"
    and "\<And>r. passed (entry r) = success r \<and> entry_confidence (entry r) = confidence r"
  shows "locals_ok l' \<and> map fst (step_results l') = map fst (step_results l) @ [k] \<and> executed l' = executed l"
  using assms
  by (auto simp: record_step_def locals_ok_def update_fresh failed_entry_def Let_def
      split: step_outcome.splits if_splits)

lemma entry_facts:
  "passed (basic_entry r) = success r \<and> entry_confidence (basic_entry r) = confidence r"
  "passed (blink_entry r) = success r \<and> entry_confidence (blink_entry r) = confidence r"
  "passed (captcha_entry r) = success r \<and> entry_confidence (captcha_entry r) = confidence r"
  by (simp_all add: basic_entry_def blink_entry_def captcha_entry_def)

lemma person_step_ok:
  assumes "person_step dec vp ref initial_locals = Inr l'"
  shows "locals_ok l' \<and> map fst (step_results l') = [''person_verification'']"
proof (cases "truthy ref")
  case False
  with assms show ?thesis
    by (auto simp: person_step_def initial_locals_def locals_ok_def skipped_entry_def)
next
  case True
  have ok0: "locals_ok (initial_locals\<lparr>executed := x\<rparr>)" for x
    by (simp add: locals_ok_def initial_locals_def)
  from assms True have "record_step ''person_verification'' ''Person verification failed'' basic_entry
      (person_block dec vp (the ref))
      (initial_locals\<lparr>executed := executed initial_locals @ [''person_verification'']\<rparr>) = Inr l'"
    by (simp add: person_step_def)
  from record_step_ok[OF this ok0 _ entry_facts(1)] show ?thesis
    by (simp add: initial_locals_def)
qed

lemma run_steps_cases:
  assumes run: "run_steps thr ex ref = (res, called)" and ok: "r_success res"
  shows "\<exists>l1 l2 l3 l4. person_step (decode_call ex) (person_call ex) ref initial_locals = Inr l1 \<and>
      midas_step (midas_call ex) l1 = Inr l2 \<and> blink_step (blink_call ex) l2 = Inr l3 \<and>
      captcha_step (captcha_call ex) l3 = Inr l4 \<and> res = final_results thr l4 \<and> called = executed l4"
proof -
  have nofail: "\<not> r_success (initial_results\<lparr>r_error := Some e\<rparr>)" for e
    by (simp add: initial_results_def)
  show ?thesis
  proof (cases "person_step (decode_call ex) (person_call ex) ref initial_locals")
    case (Inl a) with run ok nofail show ?thesis by (cases a) (auto simp: run_steps_def)
  next
    case l1: (Inr l1)
    show ?thesis
    proof (cases "midas_step (midas_call ex) l1")
      case (Inl a) with run ok nofail l1 show ?thesis by (cases a) (auto simp: run_steps_def)
    next
      case l2: (Inr l2)
      show ?thesis
      proof (cases "blink_step (blink_call ex) l2")
        case (Inl a) with run ok nofail l1 l2 show ?thesis by (cases a) (auto simp: run_steps_def)
      next
        case l3: (Inr l3)
        show ?thesis
        proof (cases "captcha_step (captcha_call ex) l3")
          case (Inl a) with run ok nofail l1 l2 l3 show ?thesis by (cases a) (auto simp: run_steps_def)
        next
          case l4: (Inr l4)
          with run l1 l2 l3 show ?thesis by (simp add: run_steps_def)
        qed
      qed
    qed
  qed
qed

lemma run_steps_completed:
  assumes run: "run_steps thr ex ref = (res, called)" and ok: "r_success res"
  shows "\<exists>l p. res = final_results thr l \<and> locals_ok l \<and> called = executed l \<and>
          map fst (step_results l) =
            [''person_verification'', ''midas_liveness'', ''blink_detection'', ''mouth_captcha''] \<and>
          executed l = p @ [''midas_liveness'', ''blink_detection'', ''mouth_captcha'']"
proof -
  from run_steps_cases[OF run ok] obtain l1 l2 l3 l4 where
    l1: "person_step (decode_call ex) (person_call ex) ref initial_locals = Inr l1" and
    l2: "midas_step (midas_call ex) l1 = Inr l2" and
    l3: "blink_step (blink_call ex) l2 = Inr l3" and
    l4: "captcha_step (captcha_call ex) l3 = Inr l4" and
    res: "res = final_results thr l4" "called = executed l4" by blast
  note p1 = person_step_ok[OF l1]
  have ok1': "locals_ok (l1\<lparr>executed := x\<rparr>)" for x using p1 by (simp add: locals_ok_def)
  have f2: "''midas_liveness'' \<notin> fst ` set (step_results (l1\<lparr>executed := x\<rparr>))" for x
    using p1 by (simp flip: set_map)
  have p2: "locals_ok l2 \<and> map fst (step_results l2) = [''person_verification'', ''midas_liveness'']
      \<and> executed l2 = executed l1 @ [''midas_liveness'']"
    using record_step_ok[OF l2[unfolded midas_step_def] ok1' f2 entry_facts(1)] p1 by simp
  have ok2': "locals_ok (l2\<lparr>executed := x\<rparr>)" for x using p2 by (simp add: locals_ok_def)
  have f3: "''blink_detection'' \<notin> fst ` set (step_results (l2\<lparr>executed := x\<rparr>))" for x
    using p2 by (simp flip: set_map)
  have p3: "locals_ok l3 \<and> map fst (step_results l3) =
        [''person_verification'', ''midas_liveness'', ''blink_detection'']
      \<and> executed l3 = executed l2 @ [''blink_detection'']"
    using record_step_ok[OF l3[unfolded blink_step_def] ok2' f3 entry_facts(2)] p2 by simp
  have ok3': "locals_ok (l3\<lparr>executed := x\<rparr>)" for x using p3 by (simp add: locals_ok_def)
  have f4: "''mouth_captcha'' \<notin> fst ` set (step_results (l3\<lparr>executed := x\<rparr>))" for x
    using p3 by (simp flip: set_map)
  have p4: "locals_ok l4 \<and> map fst (step_results l4) =
        [''person_verification'', ''midas_liveness'', ''blink_detection'', ''mouth_captcha'']
      \<and> executed l4 = executed l3 @ [''mouth_captcha'']"
    using record_step_ok[OF l4[unfolded captcha_step_def] ok3' f4 entry_facts(3)] p3 by simp
  show ?thesis using res p2 p3 p4 by (intro exI[of _ l4] exI[of _ "executed l1"]) simp
qed


lemmas run_defs = run_complete_liveness_detection_def get_camera_def release_camera_def run_steps_def
  person_step_def person_block_def truthy_def midas_step_def blink_step_def captcha_step_def record_step_def
  initial_locals_def initial_results_def final_results_def basic_entry_def blink_entry_def captcha_entry_def
  skipped_entry_def failed_entry_def get_detail_def Let_def config_confidence_threshold_def




lemma run_steps_blocks:
  "run_steps thr ex ref =
     (case enter_blocks (step_blocks ex ref) (if truthy ref then initial_locals else after_skip) of
        Inl (e, called) \<Rightarrow> (initial_results\<lparr>r_error := Some e\<rparr>, called)
      | Inr l \<Rightarrow> (final_results thr l, executed l))"
  by (simp add: run_steps_def step_blocks_def person_step_def midas_step_def blink_step_def
      captcha_step_def after_skip_def initial_locals_def split: sum.splits prod.splits)

lemma record_step_executed:
  "record_step k t en out l = Inr l' \<Longrightarrow> executed l' = executed l"
  by (auto simp: record_step_def Let_def split: step_outcome.splits if_splits)

lemma record_step_not_passed:
  "not_passed out \<Longrightarrow> record_step k t en out l = Inl (t, executed l)"
  by (auto simp: record_step_def not_passed_def Let_def split: step_outcome.splits)

lemma record_step_goes_on:
  "\<not> not_passed out \<Longrightarrow> \<exists>l'. record_step k t en out l = Inr l'"
  by (auto simp: record_step_def not_passed_def Let_def split: step_outcome.splits)

lemma enter_blocks_first_failure:
  assumes "i < length bs" "not_passed (block_outcome (bs ! i))"
    "\<forall>j<i. \<not> not_passed (block_outcome (bs ! j))"
  shows "enter_blocks bs l = Inl (block_text (bs ! i), executed l @ map block_key (take (Suc i) bs))"
  using assms
proof (induction bs arbitrary: i l)
  case Nil
  then show ?case by simp
next
  case (Cons b bs)
  show ?case
  proof (cases i)
    case 0
    with Cons.prems show ?thesis
      by (simp add: record_step_not_passed)
  next
    case (Suc k)
    with Cons.prems have np: "\<not> not_passed (block_outcome b)" by auto
    then obtain l' where l': "record_step (block_key b) (block_text b) (block_entry b) (block_outcome b)
             (l\<lparr>executed := executed l @ [block_key b]\<rparr>) = Inr l'"
      using record_step_goes_on by blast
    have ex: "executed l' = executed l @ [block_key b]" using record_step_executed[OF l'] by simp
    have "enter_blocks bs l' = Inl (block_text (bs ! k), executed l' @ map block_key (take (Suc k) bs))"
      using Cons.prems Suc by (intro Cons.IH) auto
    with l' ex Suc show ?thesis by simp
  qed
qed

text \<open>
  Claim C2 (amended). When the camera was obtained and a step's executor returns a
  result that did not pass, the first such step ends the run: no later step is
  entered, and the result is the initial dictionary with \<^verbatim>\<open>success\<close> false,
  \<^verbatim>\<open>is_live\<close> false and \<^verbatim>\<open>error\<close> set to the fixed text of that step.
\<close>

theorem fail_fast_abort:
  assumes run: "run_complete_liveness_detection thr env svc ex reference_image_data
                  = (res, called, svc', tr)"
      and cam: "fst (get_camera env svc) \<noteq> None"
      and i: "i < length (step_blocks ex reference_image_data)"
      and failed: "not_passed (block_outcome (step_blocks ex reference_image_data ! i))"
      and first: "\<forall>j<i. \<not> not_passed (block_outcome (step_blocks ex reference_image_data ! j))"
  shows "\<not> r_success res \<and> \<not> is_live res \<and>
         r_error res = Some (block_text (step_blocks ex reference_image_data ! i)) \<and>
         called = map block_key (take (Suc i) (step_blocks ex reference_image_data))"
proof -
  obtain c svc1 tr1 where g: "get_camera env svc = (Some c, svc1, tr1)"
    using cam by (cases "get_camera env svc") auto
  with run have rs: "run_steps thr ex reference_image_data = (res, called)"
    by (auto simp: run_complete_liveness_detection_def split: prod.splits)
  have e0: "executed (if truthy reference_image_data then initial_locals else after_skip) = []"
    by (simp add: initial_locals_def after_skip_def)
  from enter_blocks_first_failure[OF i failed first,
      of "if truthy reference_image_data then initial_locals else after_skip"] rs e0
  show ?thesis
    by (auto simp: run_steps_blocks initial_results_def)
qed

lemma enter_blocks_Inr_iff:
  "(\<exists>l'. enter_blocks bs l = Inr l') \<longleftrightarrow> (\<forall>b\<in>set bs. \<not> not_passed (block_outcome b))"
proof (induction bs arbitrary: l)
  case Nil
  show ?case by simp
next
  case (Cons b bs)
  show ?case
  proof (cases "not_passed (block_outcome b)")
    case True
    then show ?thesis by (simp add: record_step_not_passed)
  next
    case False
    then obtain l1 where "record_step (block_key b) (block_text b) (block_entry b) (block_outcome b)
             (l\<lparr>executed := executed l @ [block_key b]\<rparr>) = Inr l1"
      using record_step_goes_on by blast
    with False Cons.IH[of l1] show ?thesis by simp
  qed
qed

lemma enter_blocks_executed:
  "enter_blocks bs l = Inr l' \<Longrightarrow> executed l' = executed l @ map block_key bs"
proof (induction bs arbitrary: l)
  case Nil
  then show ?case by simp
next
  case (Cons b bs)
  then obtain l1 where l1: "record_step (block_key b) (block_text b) (block_entry b) (block_outcome b)
             (l\<lparr>executed := executed l @ [block_key b]\<rparr>) = Inr l1" and rest: "enter_blocks bs l1 = Inr l'"
    by (auto split: sum.splits)
  from record_step_executed[OF l1] Cons.IH[OF rest] show ?case by simp
qed

text \<open>
  Claim C10. A run in which some step returns a result that did not pass gives an
  empty \<^verbatim>\<open>steps\<close> map, confidence 0 and \<^verbatim>\<open>is_live\<close> false, without the keys
  \<^verbatim>\<open>passed_steps\<close> and \<^verbatim>\<open>total_steps\<close>; these are populated only when the camera was
  obtained, no step returned such a result and all steps were entered.
\<close>

theorem abort_leaves_steps_empty:
  assumes run: "run_complete_liveness_detection thr env svc ex reference_image_data
                  = (res, called, svc', tr)"
  shows "((\<exists>b\<in>set (step_blocks ex reference_image_data). not_passed (block_outcome b)) \<longrightarrow>
            steps res = [] \<and> r_confidence res = 0 \<and> \<not> is_live res \<and>
            passed_steps res = None \<and> total_steps res = None) \<and>
         (steps res \<noteq> [] \<or> passed_steps res \<noteq> None \<or> total_steps res \<noteq> None \<longrightarrow>
            fst (get_camera env svc) \<noteq> None \<and>
            (\<forall>b\<in>set (step_blocks ex reference_image_data). \<not> not_passed (block_outcome b)) \<and>
            called = map block_key (step_blocks ex reference_image_data) \<and>
            map fst (steps res) =
              [''person_verification'', ''midas_liveness'', ''blink_detection'', ''mouth_captcha''] \<and>
            total_steps res = Some 4)"
proof -
  let ?l0 = "if truthy reference_image_data then initial_locals else after_skip"
  let ?bs = "step_blocks ex reference_image_data"
  have init: "steps (initial_results\<lparr>r_error := e\<rparr>) = [] \<and> r_confidence (initial_results\<lparr>r_error := e\<rparr>) = 0
      \<and> \<not> is_live (initial_results\<lparr>r_error := e\<rparr>) \<and> passed_steps (initial_results\<lparr>r_error := e\<rparr>) = None
      \<and> total_steps (initial_results\<lparr>r_error := e\<rparr>) = None \<and> \<not> r_success (initial_results\<lparr>r_error := e\<rparr>)" for e
    by (simp add: initial_results_def)
  obtain cam svc1 tr1 where g: "get_camera env svc = (cam, svc1, tr1)"
    by (cases "get_camera env svc") auto
  show ?thesis
  proof (cases cam)
    case None
    with run g have "res = initial_results\<lparr>r_error := Some ''Camera not available''\<rparr>"
      by (auto simp: run_complete_liveness_detection_def split: prod.splits)
    with init show ?thesis by simp
  next
    case (Some c)
    with run g have rs: "run_steps thr ex reference_image_data = (res, called)"
      by (auto simp: run_complete_liveness_detection_def split: prod.splits)
    show ?thesis
    proof (cases "enter_blocks ?bs ?l0")
      case (Inl a)
      obtain e cs where a: "a = (e, cs)" by (cases a)
      from rs Inl a have "res = initial_results\<lparr>r_error := Some e\<rparr>"
        by (simp add: run_steps_blocks)
      with init show ?thesis by simp
    next
      case (Inr l)
      with enter_blocks_Inr_iff[of ?bs ?l0] have all: "\<forall>b\<in>set ?bs. \<not> not_passed (block_outcome b)" by auto
      from rs Inr have res: "res = final_results thr l" "called = executed l"
        by (simp_all add: run_steps_blocks)
      have ok: "r_success res" using res by (simp add: final_results_def Let_def initial_results_def)
      from run_steps_completed[OF rs ok] obtain l2 where
        l2: "res = final_results thr l2" "map fst (step_results l2) =
            [''person_verification'', ''midas_liveness'', ''blink_detection'', ''mouth_captcha'']"
        by (elim exE conjE) (rule that, assumption+)
      have keys: "map fst (steps res) =
            [''person_verification'', ''midas_liveness'', ''blink_detection'', ''mouth_captcha'']"
        using l2 by (simp add: final_results_def Let_def initial_results_def)
      have ts: "total_steps res = Some 4" using res by (simp add: final_results_def Let_def initial_results_def)
      have "executed ?l0 = []" by (simp add: initial_locals_def after_skip_def)
      with enter_blocks_executed[OF Inr] res have "called = map block_key ?bs" by simp
      with all keys ts g Some show ?thesis by simp
    qed
  qed
qed

lemmas demo_defs = demo_env_def demo_service_def demo_executors_def step_ok_def step_failed_def

theorem fail_fast_abort_witness:
  "r_error (fst blink_failing_run) = Some ''Blink detection failed'' \<and>
   \<not> r_success (fst blink_failing_run) \<and> \<not> is_live (fst blink_failing_run) \<and>
   fst (snd blink_failing_run) = [''person_verification'', ''midas_liveness'', ''blink_detection'']"
proof -
  let ?ex = "demo_executors (step_ok (4 / 5))
        (step_failed (1 / 4) ''Insufficient blink/gaze activity detected'') (step_ok 1)"
  have h1: "run_complete_liveness_detection config_confidence_threshold demo_env demo_service ?ex (Some ''img'')
      = (fst blink_failing_run, fst (snd blink_failing_run), fst (snd (snd blink_failing_run)),
         snd (snd (snd blink_failing_run)))"
    by (simp add: blink_failing_run_def)
  have cam: "fst (get_camera demo_env demo_service) \<noteq> None"
    by (simp add: get_camera_def demo_defs)
  have bs: "step_blocks ?ex (Some ''img'') =
     [\<lparr>block_key = ''person_verification'', block_text = ''Person verification failed'',
       block_entry = basic_entry, block_outcome = step_ok 0.9\<rparr>,
      \<lparr>block_key = ''midas_liveness'', block_text = ''2D/3D liveness check failed'',
       block_entry = basic_entry, block_outcome = step_ok (4 / 5)\<rparr>,
      \<lparr>block_key = ''blink_detection'', block_text = ''Blink detection failed'',
       block_entry = blink_entry, block_outcome = step_failed (1 / 4) ''Insufficient blink/gaze activity detected''\<rparr>,
      \<lparr>block_key = ''mouth_captcha'', block_text = ''Voice captcha verification failed'',
       block_entry = captcha_entry, block_outcome = step_ok 1\<rparr>]"
    by (simp add: step_blocks_def truthy_def person_block_def demo_executors_def)
  have i: "2 < length (step_blocks ?ex (Some ''img''))" unfolding bs by simp
  have failed: "not_passed (block_outcome (step_blocks ?ex (Some ''img'') ! 2))"
    unfolding bs by (simp add: not_passed_def step_failed_def)
  have first: "\<forall>j<2. \<not> not_passed (block_outcome (step_blocks ?ex (Some ''img'') ! j))"
  proof (intro allI impI)
    fix j :: nat assume "j < 2"
    then have "j = 0 \<or> j = 1" by auto
    then show "\<not> not_passed (block_outcome (step_blocks ?ex (Some ''img'') ! j))"
      unfolding bs by (auto simp: not_passed_def step_ok_def)
  qed
  from fail_fast_abort[OF h1 cam i failed first] show ?thesis
    unfolding bs by simp
qed

text \<open>
  The claim as stated asks for \<^verbatim>\<open>success\<close> true and the step's own reason in
  \<^verbatim>\<open>error\<close>; in the sample run \<^verbatim>\<open>success\<close> is false and \<^verbatim>\<open>error\<close> is the fixed text.
\<close>

theorem fail_fast_success_flag_counterexample:
  "\<not> r_success (fst (run_complete_liveness_detection config_confidence_threshold demo_env demo_service
       (demo_executors (step_ok (4 / 5)) (step_failed (1 / 4) ''Insufficient blink/gaze activity detected'')
          (step_ok 1))
       (Some ''img''))) \<and>
   r_error (fst (run_complete_liveness_detection config_confidence_threshold demo_env demo_service
       (demo_executors (step_ok (4 / 5)) (step_failed (1 / 4) ''Insufficient blink/gaze activity detected'')
          (step_ok 1))
       (Some ''img''))) = Some ''Blink detection failed''"
  by (simp add: run_defs demo_defs)

theorem abort_leaves_steps_empty_witness:
  "steps (fst blink_failing_run) = [] \<and> r_confidence (fst blink_failing_run) = 0 \<and>
   \<not> is_live (fst blink_failing_run) \<and> passed_steps (fst blink_failing_run) = None \<and>
   total_steps (fst blink_failing_run) = None"
proof -
  let ?ex = "demo_executors (step_ok (4 / 5))
        (step_failed (1 / 4) ''Insufficient blink/gaze activity detected'') (step_ok 1)"
  have h1: "run_complete_liveness_detection config_confidence_threshold demo_env demo_service ?ex (Some ''img'')
      = (fst blink_failing_run, fst (snd blink_failing_run), fst (snd (snd blink_failing_run)),
         snd (snd (snd blink_failing_run)))"
    by (simp add: blink_failing_run_def)
  have "\<lparr>block_key = ''blink_detection'', block_text = ''Blink detection failed'',
       block_entry = blink_entry, block_outcome = step_failed (1 / 4) ''Insufficient blink/gaze activity detected''\<rparr>
       \<in> set (step_blocks ?ex (Some ''img''))"
    by (simp add: step_blocks_def demo_executors_def)
  moreover have "not_passed (block_outcome \<lparr>block_key = ''blink_detection'', block_text = ''Blink detection failed'',
       block_entry = blink_entry, block_outcome = step_failed (1 / 4) ''Insufficient blink/gaze activity detected''\<rparr>)"
    by (simp add: not_passed_def step_failed_def)
  ultimately have ex: "\<exists>b\<in>set (step_blocks ?ex (Some ''img'')). not_passed (block_outcome b)" by blast
  from abort_leaves_steps_empty[OF h1] ex show ?thesis by blast
qed

text \<open>
  Claim C5 (amended). On every path \<^verbatim>\<open>release_camera\<close> is called exactly once; the
  device is released exactly once whenever the service holds a capture object, in
  particular whenever the camera was obtained, and not at all when constructing the
  capture object raised and none was held; unless the release itself raises, the
  service holds no camera afterwards.
\<close>

theorem camera_released_on_every_path:
  assumes run: "run_complete_liveness_detection thr env svc ex reference_image_data
                  = (res, called, svc', tr)"
  shows "count_list tr ReleaseCamera = 1 \<and>
         count_list tr DeviceRelease = (if camera svc = None \<and> isl (construct env) then 0 else 1) \<and>
         (fst (get_camera env svc) \<noteq> None \<longrightarrow> count_list tr DeviceRelease = 1) \<and>
         (\<not> release_raises env \<longrightarrow> camera svc' = None)"
proof -
  obtain cam svc1 tr1 where g: "get_camera env svc = (cam, svc1, tr1)"
    by (cases "get_camera env svc") auto
  obtain svc2 tr2 where r: "release_camera env svc1 = (svc2, tr2)"
    by (cases "release_camera env svc1") auto
  from run g r have tr: "tr = tr1 @ tr2" and svc': "svc' = svc2"
    by (auto simp: run_complete_liveness_detection_def split: prod.splits)
  have g1: "count_list tr1 ReleaseCamera = 0 \<and> count_list tr1 DeviceRelease = 0 \<and>
      (camera svc1 = None \<longleftrightarrow> camera svc = None \<and> isl (construct env)) \<and>
      (cam \<noteq> None \<longrightarrow> camera svc1 \<noteq> None)"
    using g by (auto simp: get_camera_def Let_def split: sum.splits if_splits)
  have r1: "count_list tr2 ReleaseCamera = 1 \<and>
      count_list tr2 DeviceRelease = (if camera svc1 = None then 0 else 1) \<and>
      (\<not> release_raises env \<longrightarrow> camera svc2 = None)"
    using r by (auto simp: release_camera_def split: if_splits)
  from g1 r1 tr svc' g show ?thesis by auto
qed

theorem camera_released_on_every_path_witness:
  "count_list (snd (snd (snd blink_failing_run))) ReleaseCamera = 1 \<and>
   count_list (snd (snd (snd blink_failing_run))) DeviceRelease = 1 \<and>
   camera (fst (snd (snd blink_failing_run))) = None"
proof -
  have h1: "run_complete_liveness_detection config_confidence_threshold demo_env demo_service
       (demo_executors (step_ok (4 / 5)) (step_failed (1 / 4) ''Insufficient blink/gaze activity detected'')
          (step_ok 1)) (Some ''img'')
      = (fst blink_failing_run, fst (snd blink_failing_run), fst (snd (snd blink_failing_run)),
         snd (snd (snd blink_failing_run)))"
    by (simp add: blink_failing_run_def)
  from camera_released_on_every_path[OF h1] show ?thesis
    by (simp add: demo_env_def demo_service_def)
qed

text \<open>
  With a camera whose construction raises, the run ends without any release of the
  device, so "released exactly once on every path" fails there.
\<close>

theorem camera_unavailable_release_counterexample:
  "count_list (snd (snd (snd (run_complete_liveness_detection config_confidence_threshold
       unavailable_env demo_service (demo_executors (step_ok 1) (step_ok 1) (step_ok 1)) None))))
     DeviceRelease = 0"
  by (simp add: run_complete_liveness_detection_def get_camera_def release_camera_def
      unavailable_env_def demo_service_def)


subsection \<open>Blink detection\<close>

lemma low_run_snoc: "low_run (xs @ [x]) = (if x < 0.22 then low_run xs + 1 else 0)"
  by (simp add: low_run_def)

lemma low_run_ge2:
  "2 \<le> low_run xs \<longleftrightarrow>
     2 \<le> length xs \<and> xs ! (length xs - 2) < 0.22 \<and> xs ! (length xs - 1) < 0.22"
proof (cases "rev xs")
  case Nil
  then show ?thesis by (simp add: low_run_def)
next
  case (Cons a as)
  note c1 = Cons
  show ?thesis
  proof (cases as)
    case Nil
    with c1 have "xs = [a]" by (metis rev_rev_ident rev_singleton_conv)
    then show ?thesis by (simp add: low_run_def)
  next
    case (Cons b bs)
    with c1 have xs: "xs = rev bs @ [b, a]" by (metis rev.simps(2) rev_rev_ident append.assoc append_Cons append_Nil)
    show ?thesis unfolding xs by (simp add: low_run_def nth_append)
  qed
qed

lemma blinks_in_snoc:
  "blinks_in (xs @ [x]) = blinks_in xs + (if \<not> x < 0.22 \<and> 2 \<le> low_run xs then 1 else 0)"
proof -
  let ?n = "length xs"
  have same: "filter (blink_completed_at (xs @ [x])) [0..<?n] = filter (blink_completed_at xs) [0..<?n]"
    by (rule filter_cong) (auto simp: blink_completed_at_def nth_append)
  have last: "blink_completed_at (xs @ [x]) ?n \<longleftrightarrow> \<not> x < 0.22 \<and> 2 \<le> low_run xs"
    by (auto simp: blink_completed_at_def nth_append low_run_ge2)
  show ?thesis
    by (simp add: blinks_in_def same last)
qed

lemma debounce_append: "debounce (xs @ ys) ct = debounce ys (debounce xs ct)"
  by (induction xs ct rule: debounce.induct) auto

lemma debounce_counts: "debounce ears (0, 0) = (low_run ears, blinks_in ears)"
proof (induction ears rule: rev_induct)
  case Nil
  show ?case by (simp add: low_run_def blinks_in_def)
next
  case (snoc x xs)
  then show ?case
    by (simp add: debounce_append low_run_snoc blinks_in_snoc EYE_AR_THRESH_def EYE_AR_CONSEC_FRAMES_def)
qed

lemma blink_face_debounce:
  "(counter (blink_face f s), total_blinks (blink_face f s)) =
     debounce [ear_of f] (counter s, total_blinks s)"
  by (simp add: blink_face_def ear_of_def Let_def)

lemma fold_blink_face_debounce:
  "(counter (fold blink_face fs s), total_blinks (fold blink_face fs s)) =
     debounce (map ear_of fs) (counter s, total_blinks s)"
proof (induction fs arbitrary: s)
  case Nil
  show ?case by simp
next
  case (Cons f fs)
  have "debounce (map ear_of (f # fs)) (counter s, total_blinks s) =
        debounce (map ear_of fs) (debounce [ear_of f] (counter s, total_blinks s))"
    using debounce_append[of "[ear_of f]" "map ear_of fs"] by simp
  with Cons[of "blink_face f s"] blink_face_debounce[of f s] show ?case by simp
qed

lemma blink_loop_debounce:
  "blink_loop es s = Inr s' \<Longrightarrow>
     (counter s', total_blinks s') = debounce (ears_of es) (counter s, total_blinks s)"
proof (induction es s rule: blink_loop.induct)
  case (1 s)
  then show ?case by simp
next
  case (2 es s)
  then show ?case by simp
next
  case (3 faces es s)
  let ?s1 = "fold blink_face faces (s\<lparr>frame_count := frame_count s + 1\<rparr>)"
  from 3 have "(counter s', total_blinks s') = debounce (ears_of es) (counter ?s1, total_blinks ?s1)"
    by simp
  also have "(counter ?s1, total_blinks ?s1) = debounce (map ear_of faces) (counter s, total_blinks s)"
    using fold_blink_face_debounce[of faces "s\<lparr>frame_count := frame_count s + 1\<rparr>"] by simp
  finally show ?case by (simp add: debounce_append)
next
  case (4 e es s)
  then show ?case by simp
qed

text \<open>
  Claim C8. For every sequence of eye aspect ratios that the loop processes without a
  fault, the number of blinks reported is the number of positions at which the ratio,
  after having been below 0.22 for at least two consecutive values, is no longer below
  0.22 (a value equal to the threshold also ends the closure); a closure still open at
  the end of the sequence is not counted. The sequence 0.30, 0.18, 0.18, 0.30 has
  exactly one blink.
\<close>

theorem blink_count_debounced:
  assumes "blink_loop (seen duration events) initial_blink_state = Inr s"
  shows "get_detail (detect_blinks True duration events) ''blinks_detected'' PNone
           = PInt (int (blinks_in (ears_of (seen duration events)))) \<and>
         total_blinks s = blinks_in (ears_of (seen duration events)) \<and>
         blinks_in [0.30, 0.18, 0.18, 0.30] = 1"
proof -
  from blink_loop_debounce[OF assms]
  have t: "total_blinks s = blinks_in (ears_of (seen duration events))"
    by (simp add: initial_blink_state_def debounce_counts)
  have "get_detail (detect_blinks True duration events) ''blinks_detected'' PNone
          = PInt (int (total_blinks s))"
    using assms by (simp add: detect_blinks_def get_detail_def Let_def)
  moreover have "blinks_in [0.30, 0.18, 0.18, 0.30] = 1"
    using debounce_counts[of "[0.30, 0.18, 0.18, 0.30]"]
    by (simp add: EYE_AR_THRESH_def EYE_AR_CONSEC_FRAMES_def)
  ultimately show ?thesis using t by simp
qed

theorem blink_count_debounced_witness:
  "get_detail (detect_blinks True 4
      [Frame [face_with_ear 0.30], Frame [face_with_ear 0.18], NoFrame,
       Frame [face_with_ear 0.18], Frame [face_with_ear 0.30]]) ''blinks_detected'' PNone = PInt 1"
proof -
  let ?es = "[Frame [face_with_ear 0.30], Frame [face_with_ear 0.18], NoFrame,
       Frame [face_with_ear 0.18], Frame [face_with_ear 0.30]]"
  have e: "ears_of (seen 4 ?es) = [0.30, 0.18, 0.18, 0.30]"
    by (simp add: seen_def ear_of_def face_with_ear_def)
  have "\<exists>s. blink_loop (seen 4 ?es) initial_blink_state = Inr s"
    by (simp add: seen_def)
  then obtain s where "blink_loop (seen 4 ?es) initial_blink_state = Inr s" ..
  from blink_count_debounced[OF this] show ?thesis
    unfolding e by simp
qed

subsection \<open>2D/3D liveness check\<close>

lemma frame_vote_confidence:
  "snd (snd (snd (frame_vote f))) =
     0.4 * min 1 (depth_std_of f / (2 * adaptive_depth_thresh (brightness f)))
     + 0.3 * max 0 (1 - reproj (pose_of f) / 12) + 0.3 * 0.5"
  by (simp add: frame_vote_def liveness_decision_def Let_def mult.commute)




lemma np_std_0_16: "np_std [0, 16] = 8"
proof -
  have "np_var [0, 16] = 64" by (simp add: np_var_def Let_def power2_eq_square)
  moreover have "sqrt 64 = 8" by (rule real_sqrt_unique) simp_all
  ultimately show ?thesis by (simp add: np_std_def)
qed

lemma live_frame_vote: "frame_vote live_frame = (True, True, True, 0.85)"
  by (simp add: frame_vote_def live_frame_def depth_std_of_def pose_of_def np_std_0_16
      adaptive_depth_thresh_def liveness_decision_def Let_def)

lemma empty_frame_vote: "frame_vote empty_frame = (False, False, False, 0.15)"
  by (simp add: frame_vote_def empty_frame_def depth_std_of_def pose_of_def
      adaptive_depth_thresh_def liveness_decision_def Let_def)

lemma midas_loop_no_frame: "midas_loop n es s = Inr s' \<Longrightarrow> s' = s"
  by (induction n es s rule: midas_loop.induct) (simp_all add: torch_no_grad_def)

lemma run_liveness_check_fails:
  "\<not> success (run_liveness_check model_loaded duration events) \<and>
   confidence (run_liveness_check model_loaded duration events) = 0 \<and>
   details (run_liveness_check model_loaded duration events) = []"
proof (cases "model_loaded \<and> \<not> duration < 0")
  case False
  then show ?thesis
    by (auto simp: run_liveness_check_def not_loaded_result_def failure_result_def)
next
  case True
  show ?thesis
  proof (cases "midas_loop (nat (duration * 30)) (seen duration events) initial_midas_state")
    case (Inl e)
    with True show ?thesis by (simp add: run_liveness_check_def failure_result_def)
  next
    case (Inr s)
    from midas_loop_no_frame[OF Inr] have "live_votes s = []"
      by (simp add: initial_midas_state_def)
    with True Inr show ?thesis by (simp add: run_liveness_check_def failure_result_def)
  qed
qed

text \<open>
  Claim C7 (not met by the service). No run of \<^verbatim>\<open>run_liveness_check\<close> passes or
  reports vote counts, whatever the camera delivers: the decision "live votes divided
  by total votes strictly more than 0.6" is written in the source and never reached.
  With 13 frames for which \<^verbatim>\<open>liveness_decision\<close> votes live and 7 for which it does
  not, a ratio of 0.65, the step returns the failure dictionary of the
  \<^verbatim>\<open>NameError\<close> raised at the first frame, where the claim has it pass.
\<close>

theorem vote_decision_never_reached:
  "\<not> success (run_liveness_check model_loaded duration events) \<and>
   get_detail (run_liveness_check model_loaded duration events) ''total_votes'' PNone = PNone \<and>
   fst (frame_vote live_frame) \<and> \<not> fst (frame_vote empty_frame) \<and>
   run_liveness_check True 5 (vote_events 13 7) =
     failure_result ''2D/3D liveness check failed: '' ''name torch is not defined''"
proof -
  have "\<exists>rest. vote_events 13 7 = Frame live_frame # rest"
    by (simp add: vote_events_def eval_nat_numeral)
  then obtain rest where ev: "vote_events 13 7 = Frame live_frame # rest" ..
  have "midas_loop (nat (5 * 30)) (seen 5 (vote_events 13 7)) initial_midas_state
          = Inl ''name torch is not defined''"
    unfolding seen_def ev by (simp add: torch_no_grad_def)
  then have "run_liveness_check True 5 (vote_events 13 7) =
     failure_result ''2D/3D liveness check failed: '' ''name torch is not defined''"
    by (simp add: run_liveness_check_def)
  with run_liveness_check_fails[of model_loaded duration events] show ?thesis
    by (simp add: get_detail_def live_frame_vote empty_frame_vote)
qed

subsection \<open>Person verification and voice captcha\<close>

lemma linalg_norm_unit: "linalg_norm [1, 0] = 1" "linalg_norm [-1, 0] = 1"
  by (simp_all add: linalg_norm_def)

lemma normalised_unit: "normalised [1, 0] = [1, 0]" "normalised [-1, 0] = [-1, 0]"
  by (simp_all add: normalised_def linalg_norm_unit)

text \<open>
  Claim C3 (not met by the service). A first frame with no face, or with two faces,
  does not end \<^verbatim>\<open>verify_person\<close>: the second frame is processed as well and the step
  passes, whereas the stand-alone variant returns false after that first frame.
\<close>

theorem wrong_face_count_not_terminal:
  "success (verify_person True [[1, 0]] 2 [Frame [], Frame [[1, 0]]]) \<and>
   get_detail (verify_person True [[1, 0]] 2 [Frame [], Frame [[1, 0]]]) ''frames_processed'' PNone
     = PInt 2 \<and>
   success (verify_person True [[1, 0]] 2 [Frame [[1, 0], [1, 0]], Frame [[1, 0]]]) \<and>
   legacy_run (normalised [1, 0]) (seen 2 [Frame [], Frame [[1, 0]]]) False 0 = Inr (False, 1) \<and>
   legacy_run (normalised [1, 0]) (seen 2 [Frame [[1, 0], [1, 0]], Frame [[1, 0]]]) False 0
     = Inr (False, 1)"
  by (simp add: verify_person_def seen_def normalised_unit np_dot_def initial_person_state_def
      mean_or_zero_def get_detail_def legacy_verify_face_def Let_def)





subsection \<open>Ranges of the confidences\<close>

lemma sum_list_squares_nonneg: "0 \<le> sum_list (map (\<lambda>x::real. x\<^sup>2) xs)"
  by (induction xs) auto

lemma cross_term_bound:
  fixes x y S X Y :: real
  assumes "S\<^sup>2 \<le> X * Y" "0 \<le> X" "0 \<le> Y"
  shows "2 * (x * y) * S \<le> x\<^sup>2 * Y + y\<^sup>2 * X"
proof -
  have nn: "0 \<le> x\<^sup>2 * Y + y\<^sup>2 * X" using assms by simp
  have "(2 * (x * y) * S)\<^sup>2 = 4 * (x\<^sup>2 * y\<^sup>2) * S\<^sup>2" by (simp add: power2_eq_square)
  also have "\<dots> \<le> 4 * (x\<^sup>2 * y\<^sup>2) * (X * Y)"
    using assms(1) by (intro mult_left_mono) simp_all
  also have "\<dots> \<le> (x\<^sup>2 * Y + y\<^sup>2 * X)\<^sup>2"
  proof -
    have "0 \<le> (x\<^sup>2 * Y - y\<^sup>2 * X)\<^sup>2" by simp
    then show ?thesis by (simp add: power2_eq_square algebra_simps)
  qed
  finally have "(2 * (x * y) * S)\<^sup>2 \<le> (x\<^sup>2 * Y + y\<^sup>2 * X)\<^sup>2" .
  then show ?thesis using nn by (rule power2_le_imp_le)
qed

lemma dot_squared_bound:
  "(sum_list (map2 (*) a b))\<^sup>2 \<le>
     sum_list (map (\<lambda>x::real. x\<^sup>2) a) * sum_list (map (\<lambda>x. x\<^sup>2) b)"
proof (induction a arbitrary: b)
  case Nil
  show ?case by simp
next
  case (Cons x a)
  show ?case
  proof (cases b)
    case Nil
    then show ?thesis by simp
  next
    case (Cons y b')
    let ?S = "sum_list (map2 (*) a b')"
    let ?X = "sum_list (map (\<lambda>x. x\<^sup>2) a)"
    let ?Y = "sum_list (map (\<lambda>x. x\<^sup>2) b')"
    have ih: "?S\<^sup>2 \<le> ?X * ?Y" by (rule Cons.IH)
    have c: "2 * (x * y) * ?S \<le> x\<^sup>2 * ?Y + y\<^sup>2 * ?X"
      by (rule cross_term_bound[OF ih sum_list_squares_nonneg sum_list_squares_nonneg])
    have "(x * y + ?S)\<^sup>2 = x\<^sup>2 * y\<^sup>2 + 2 * (x * y) * ?S + ?S\<^sup>2"
      by (simp add: power2_eq_square algebra_simps)
    also have "\<dots> \<le> x\<^sup>2 * y\<^sup>2 + (x\<^sup>2 * ?Y + y\<^sup>2 * ?X) + ?X * ?Y"
      using ih c by simp
    also have "\<dots> = (x\<^sup>2 + ?X) * (y\<^sup>2 + ?Y)" by (simp add: algebra_simps)
    finally show ?thesis using Cons by simp
  qed
qed

lemma sum_list_divide_const:
  "sum_list (map (\<lambda>x. f x / c) v) = sum_list (map f v) / (c::real)"
  by (induction v) (simp_all add: add_divide_distrib)

lemma normalised_squares:
  assumes "linalg_norm v \<noteq> 0"
  shows "sum_list (map (\<lambda>x. x\<^sup>2) (normalised v)) = 1"
proof -
  let ?n = "linalg_norm v"
  have n2: "?n\<^sup>2 = sum_list (map (\<lambda>x. x\<^sup>2) v)"
    by (simp add: linalg_norm_def sum_list_squares_nonneg)
  have "sum_list (map (\<lambda>x. x\<^sup>2) (normalised v)) = sum_list (map (\<lambda>x. x\<^sup>2 / ?n\<^sup>2) v)"
    by (simp add: normalised_def comp_def power_divide)
  also have "\<dots> = sum_list (map (\<lambda>x. x\<^sup>2) v) / ?n\<^sup>2"
    by (rule sum_list_divide_const)
  also have "\<dots> = 1"
  proof -
    have "?n\<^sup>2 \<noteq> 0" using assms by simp
    then show ?thesis unfolding n2[symmetric] by simp
  qed
  finally show ?thesis .
qed

lemma similarity_bound:
  assumes "sum_list (map (\<lambda>x. x\<^sup>2) r) = 1" "linalg_norm t \<noteq> 0"
      and "np_dot r (normalised t) = Inr s"
  shows "- 1 \<le> s \<and> s \<le> 1"
proof -
  from assms(3) have s: "s = sum_list (map2 (*) r (normalised t))"
    by (simp add: np_dot_def split: if_splits)
  have "s\<^sup>2 \<le> 1"
    using dot_squared_bound[of r "normalised t"] assms(1) normalised_squares[OF assms(2)]
    unfolding s by simp
  then have "\<bar>s\<bar> \<le> 1" using abs_le_square_iff[of s 1] by simp
  then show ?thesis by auto
qed

lemma mean_or_zero_bounds:
  assumes "\<forall>x\<in>set xs. lo \<le> x \<and> x \<le> hi" "lo \<le> 0" "0 \<le> hi"
  shows "lo \<le> mean_or_zero xs \<and> mean_or_zero xs \<le> hi"
proof (cases "xs = []")
  case True
  with assms show ?thesis by (simp add: mean_or_zero_def)
next
  case False
  have b: "real (length xs) * lo \<le> sum_list xs \<and> sum_list xs \<le> real (length xs) * hi"
    using assms(1) by (induction xs) (auto simp: algebra_simps)
  have n: "0 < real (length xs)" using False by simp
  from b n have "lo \<le> sum_list xs / real (length xs)" "sum_list xs / real (length xs) \<le> hi"
    by (simp_all add: pos_le_divide_eq pos_divide_le_eq mult.commute)
  with False show ?thesis by (simp add: mean_or_zero_def)
qed

lemma frames_of_seen: "set (frames_of (seen duration es)) \<subseteq> set (frames_of es)"
  by (simp add: seen_def)

lemma person_loop_scores:
  assumes "sum_list (map (\<lambda>x. x\<^sup>2) ref_emb) = 1"
      and "\<forall>faces\<in>set (frames_of es). length faces = 1 \<longrightarrow> linalg_norm (hd faces) \<noteq> 0"
      and "\<forall>x\<in>set (pv_confidence_scores s). - 1 \<le> x \<and> x \<le> 1"
      and "person_loop ref_emb es s = Inr s'"
  shows "\<forall>x\<in>set (pv_confidence_scores s'). - 1 \<le> x \<and> x \<le> 1"
  using assms
proof (induction ref_emb es s rule: person_loop.induct)
  case (1 ref_emb s)
  then show ?case by simp
next
  case (2 ref_emb es s)
  then show ?case by simp
next
  case (3 ref_emb e es s)
  then show ?case by simp
next
  case (4 ref_emb faces es s)
  let ?s1 = "s\<lparr>pv_frame_count := pv_frame_count s + 1\<rparr>"
  have rest: "\<forall>faces\<in>set (frames_of es). length faces = 1 \<longrightarrow> linalg_norm (hd faces) \<noteq> 0"
    using "4.prems"(2) by simp
  have s1: "\<forall>x\<in>set (pv_confidence_scores ?s1). - 1 \<le> x \<and> x \<le> 1"
    using "4.prems"(3) by simp
  consider (none) "length faces = 0" | (many) "length faces > 1" | (one) "length faces = 1"
    by linarith
  then show ?case
  proof cases
    case none
    with "4.prems"(4) have "person_loop ref_emb es ?s1 = Inr s'" by simp
    from "4.IH"(1)[OF refl none "4.prems"(1) rest s1 this] show ?thesis .
  next
    case many
    then have n0: "length faces \<noteq> 0" by auto
    with many "4.prems"(4) have "person_loop ref_emb es ?s1 = Inr s'" by simp
    from "4.IH"(2)[OF refl n0 many "4.prems"(1) rest s1 this] show ?thesis .
  next
    case one
    then have n0: "length faces \<noteq> 0" and n1: "\<not> 1 < length faces" by simp_all
    from one "4.prems"(2) have nz: "linalg_norm (hd faces) \<noteq> 0" by simp
    obtain sim where sim: "np_dot ref_emb (normalised (hd faces)) = Inr sim"
      using "4.prems"(4) one by (cases "np_dot ref_emb (normalised (hd faces))") simp_all
    let ?s2 = "?s1\<lparr>pv_confidence_scores := pv_confidence_scores ?s1 @ [sim],
                     verified := (if sim > 0.5 then True else verified ?s1)\<rparr>"
    from sim one "4.prems"(4) have run: "person_loop ref_emb es ?s2 = Inr s'"
      by (auto simp: Let_def split: if_splits)
    have sb: "- 1 \<le> sim \<and> sim \<le> 1" by (rule similarity_bound[OF "4.prems"(1) nz sim])
    have s2: "\<forall>x\<in>set (pv_confidence_scores ?s2). - 1 \<le> x \<and> x \<le> 1"
      using s1 sb by simp
    from "4.IH"(3)[OF refl n0 n1 sim "4.prems"(1) rest s2 run] show ?thesis .
  qed
qed

lemma verify_person_confidence:
  assumes "length ref_faces = 1 \<longrightarrow> linalg_norm (hd ref_faces) \<noteq> 0"
      and "\<forall>faces\<in>set (frames_of events). length faces = 1 \<longrightarrow> linalg_norm (hd faces) \<noteq> 0"
  shows "- 1 \<le> confidence (verify_person model_loaded ref_faces duration events) \<and>
         confidence (verify_person model_loaded ref_faces duration events) \<le> 1"
proof (cases "model_loaded \<and> length ref_faces = 1")
  case False
  then show ?thesis by (auto simp: verify_person_def not_loaded_result_def)
next
  case True
  then have nz: "linalg_norm (hd ref_faces) \<noteq> 0" using assms(1) by simp
  show ?thesis
  proof (cases "person_loop (normalised (hd ref_faces)) (seen duration events) initial_person_state")
    case (Inl e)
    with True show ?thesis by (simp add: verify_person_def failure_result_def)
  next
    case (Inr s)
    have ev: "\<forall>faces\<in>set (frames_of (seen duration events)).
                length faces = 1 \<longrightarrow> linalg_norm (hd faces) \<noteq> 0"
      using assms(2) frames_of_seen[of duration events] by blast
    have "\<forall>x\<in>set (pv_confidence_scores s). - 1 \<le> x \<and> x \<le> 1"
      by (rule person_loop_scores[OF normalised_squares[OF nz] ev _ Inr])
         (simp add: initial_person_state_def)
    from mean_or_zero_bounds[OF this] True Inr show ?thesis
      by (simp add: verify_person_def)
  qed
qed

lemma np_var_nonneg: "0 \<le> np_var xs"
proof -
  have "0 \<le> sum_list (map (\<lambda>x. (x - m)\<^sup>2) xs)" for m :: real
    by (induction xs) auto
  then show ?thesis by (simp add: np_var_def Let_def)
qed

lemma np_std_nonneg: "0 \<le> np_std xs"
  by (simp add: np_std_def np_var_nonneg)

lemma half_sum_of_clipped:
  fixes x y :: real
  assumes "0 \<le> x" "0 \<le> y"
  shows "0 \<le> (min 1 x + min 1 y) / 2 \<and> (min 1 x + min 1 y) / 2 \<le> 1"
  using assms by (auto simp: min_def)

lemma run_liveness_check_confidence:
  assumes "\<forall>f\<in>set (frames_of events). 0 \<le> brightness f \<and> 0 \<le> reproj (pose_of f)"
  shows "0 \<le> confidence (run_liveness_check model_loaded duration events) \<and>
         confidence (run_liveness_check model_loaded duration events) \<le> 1"
  using run_liveness_check_fails[of model_loaded duration events] by simp

lemma detect_blinks_confidence:
  "0 \<le> confidence (detect_blinks model_loaded duration events) \<and>
   confidence (detect_blinks model_loaded duration events) \<le> 1"
proof -
  have "0 \<le> (min 1 (real a / 2) + min 1 (real b / 3)) / 2 \<and>
        (min 1 (real a / 2) + min 1 (real b / 3)) / 2 \<le> 1" for a b :: nat
    by (rule half_sum_of_clipped) simp_all
  then show ?thesis
    by (simp add: detect_blinks_def not_loaded_result_def failure_result_def Let_def
        split: sum.splits)
qed

lemma run_captcha_verification_confidence:
  "0 \<le> confidence (run_captcha_verification model_loaded word_to_num d audio_fault duration events) \<and>
   confidence (run_captcha_verification model_loaded word_to_num d audio_fault duration events) \<le> 1"
proof (cases "model_loaded \<and> audio_fault = None")
  case False
  then show ?thesis
    by (auto simp: run_captcha_verification_def not_loaded_result_def failure_result_def Let_def)
next
  case True
  show ?thesis
  proof (cases "captcha_loop (seen duration events) ([], [])")
    case (Inl e)
    with True show ?thesis
      by (simp add: run_captcha_verification_def failure_result_def Let_def)
  next
    case (Inr acc)
    obtain mm sp where acc: "acc = (mm, sp)" by (cases acc)
    define avg where "avg = (if mm \<noteq> [] then np_std mm else 0)"
    define z :: real where "z = (if recognize_number word_to_num (py_strip sp)
        = Some (py_str (captcha_answer_of d)) then 1 else 0)"
    have c: "confidence (run_captcha_verification model_loaded word_to_num d audio_fault duration events)
        = (min 1 (avg / 0.02) + min 1 z) / 2"
      using True Inr acc by (simp add: run_captcha_verification_def Let_def avg_def z_def)
    have "0 \<le> avg / 0.02" "0 \<le> z" by (simp_all add: avg_def z_def np_std_nonneg)
    from half_sum_of_clipped[OF this] show ?thesis unfolding c .
  qed
qed

lemma verify_uploaded_audio_confidence:
  "0 \<le> confidence (verify_uploaded_audio model_loaded word_to_num d recognition expression) \<and>
   confidence (verify_uploaded_audio model_loaded word_to_num d recognition expression) \<le> 1"
  by (auto simp: verify_uploaded_audio_def not_loaded_result_def failure_result_def Let_def
      split: sum.splits option.splits prod.splits)

lemma record_step_totals:
  assumes "record_step k t en out l = Inr l'" "totals_within lo hi l"
      and "\<forall>r. out = Returned r \<and> success r \<longrightarrow> lo \<le> confidence r \<and> confidence r \<le> hi"
  shows "totals_within lo hi l'"
  using assms
  by (auto simp: record_step_def totals_within_def Let_def algebra_simps
      split: step_outcome.splits if_splits)

lemma enter_blocks_totals:
  assumes "enter_blocks bs l = Inr l'" "totals_within lo hi l"
      and "\<forall>b\<in>set bs. \<forall>r. block_outcome b = Returned r \<and> success r \<longrightarrow>
             lo \<le> confidence r \<and> confidence r \<le> hi"
  shows "totals_within lo hi l'"
  using assms
proof (induction bs arbitrary: l)
  case Nil
  then show ?case by simp
next
  case (Cons b bs)
  from Cons.prems(1) obtain l1 where
    l1: "record_step (block_key b) (block_text b) (block_entry b) (block_outcome b)
           (l\<lparr>executed := executed l @ [block_key b]\<rparr>) = Inr l1" and
    rest: "enter_blocks bs l1 = Inr l'"
    by (auto split: sum.splits)
  have "totals_within lo hi (l\<lparr>executed := executed l @ [block_key b]\<rparr>)"
    using Cons.prems(2) by (simp add: totals_within_def)
  from record_step_totals[OF l1 this] Cons.prems(3) have "totals_within lo hi l1" by simp
  from Cons.IH[OF rest this] Cons.prems(3) show ?case by simp
qed

lemma final_results_confidence:
  assumes "totals_within lo hi l" "lo \<le> 0" "0 \<le> hi"
  shows "lo \<le> r_confidence (final_results thr l) \<and> r_confidence (final_results thr l) \<le> hi"
proof (cases "n_passed l > 0")
  case False
  with assms show ?thesis by (simp add: final_results_def Let_def initial_results_def)
next
  case True
  then have n: "0 < real (n_passed l)" by simp
  from assms(1) n have "lo \<le> total_confidence l / real (n_passed l)"
      "total_confidence l / real (n_passed l) \<le> hi"
    by (simp_all add: totals_within_def pos_le_divide_eq pos_divide_le_eq mult.commute)
  with True show ?thesis by (simp add: final_results_def Let_def initial_results_def)
qed

lemma pipeline_confidence:
  assumes run: "run_complete_liveness_detection thr env svc ex reference_image_data
                  = (res, called, svc', tr)"
      and lo: "lo \<le> 0" and hi: "1 \<le> hi"
      and bound: "\<forall>b\<in>set (step_blocks ex reference_image_data).
             \<forall>r. block_outcome b = Returned r \<and> success r \<longrightarrow>
               lo \<le> confidence r \<and> confidence r \<le> hi"
  shows "lo \<le> r_confidence res \<and> r_confidence res \<le> hi"
proof -
  let ?l0 = "if truthy reference_image_data then initial_locals else after_skip"
  let ?bs = "step_blocks ex reference_image_data"
  have init: "r_confidence (initial_results\<lparr>r_error := e\<rparr>) = 0" for e
    by (simp add: initial_results_def)
  have t0: "totals_within lo hi ?l0"
    using lo hi by (simp add: totals_within_def initial_locals_def after_skip_def)
  obtain cam svc1 tr1 where g: "get_camera env svc = (cam, svc1, tr1)"
    by (cases "get_camera env svc") auto
  show ?thesis
  proof (cases cam)
    case None
    with run g have "res = initial_results\<lparr>r_error := Some ''Camera not available''\<rparr>"
      by (auto simp: run_complete_liveness_detection_def split: prod.splits)
    with init lo hi show ?thesis by simp
  next
    case (Some c)
    with run g have rs: "run_steps thr ex reference_image_data = (res, called)"
      by (auto simp: run_complete_liveness_detection_def split: prod.splits)
    show ?thesis
    proof (cases "enter_blocks ?bs ?l0")
      case (Inl a)
      obtain e cs where a: "a = (e, cs)" by (cases a)
      from rs Inl a have "res = initial_results\<lparr>r_error := Some e\<rparr>"
        by (simp add: run_steps_blocks)
      with init lo hi show ?thesis by simp
    next
      case (Inr l)
      from rs Inr have res: "res = final_results thr l" by (simp add: run_steps_blocks)
      from enter_blocks_totals[OF Inr t0 bound] have "totals_within lo hi l" .
      from final_results_confidence[OF this lo] hi show ?thesis unfolding res by simp
    qed
  qed
qed

text \<open>
  Claim C4 (amended). The confidence returned by blink detection, by the voice captcha
  and by the audio upload variant lies in [0, 1]; so does that of the 2D/3D check for
  frames with non-negative brightness and reprojection error. The confidence of
  person verification, a mean of cosine similarities of embeddings that are not zero,
  lies in [-1, 1]. The confidence of a pipeline result lies within any bounds that
  contain 0 and 1 and the confidences of the steps that passed: in [0, 1] when these
  are, and in [-1, 1] in any case.
\<close>

theorem confidence_ranges:
  assumes run: "run_complete_liveness_detection thr env svc ex reference_image_data
                  = (res, called, svc', tr)"
  shows "(0 \<le> confidence (detect_blinks blink_loaded blink_duration blink_events) \<and>
          confidence (detect_blinks blink_loaded blink_duration blink_events) \<le> 1) \<and>
         (0 \<le> confidence (run_captcha_verification captcha_loaded word_to_num d audio_fault
                              captcha_duration captcha_events) \<and>
          confidence (run_captcha_verification captcha_loaded word_to_num d audio_fault
                        captcha_duration captcha_events) \<le> 1) \<and>
         (0 \<le> confidence (verify_uploaded_audio captcha_loaded word_to_num d recognition expression) \<and>
          confidence (verify_uploaded_audio captcha_loaded word_to_num d recognition expression) \<le> 1) \<and>
         ((\<forall>f\<in>set (frames_of midas_events). 0 \<le> brightness f \<and> 0 \<le> reproj (pose_of f)) \<longrightarrow>
            0 \<le> confidence (run_liveness_check midas_loaded midas_duration midas_events) \<and>
            confidence (run_liveness_check midas_loaded midas_duration midas_events) \<le> 1) \<and>
         ((length ref_faces = 1 \<longrightarrow> linalg_norm (hd ref_faces) \<noteq> 0) \<and>
          (\<forall>faces\<in>set (frames_of person_events).
              length faces = 1 \<longrightarrow> linalg_norm (hd faces) \<noteq> 0) \<longrightarrow>
            - 1 \<le> confidence (verify_person person_loaded ref_faces person_duration person_events) \<and>
            confidence (verify_person person_loaded ref_faces person_duration person_events) \<le> 1) \<and>
         (lo \<le> 0 \<and> 1 \<le> hi \<and>
          (\<forall>b\<in>set (step_blocks ex reference_image_data).
             \<forall>r. block_outcome b = Returned r \<and> success r \<longrightarrow>
               lo \<le> confidence r \<and> confidence r \<le> hi) \<longrightarrow>
            lo \<le> r_confidence res \<and> r_confidence res \<le> hi)"
proof -
  have blink: "0 \<le> confidence (detect_blinks blink_loaded blink_duration blink_events) \<and>
          confidence (detect_blinks blink_loaded blink_duration blink_events) \<le> 1"
    by (rule detect_blinks_confidence)
  have captcha: "0 \<le> confidence (run_captcha_verification captcha_loaded word_to_num d audio_fault
                              captcha_duration captcha_events) \<and>
          confidence (run_captcha_verification captcha_loaded word_to_num d audio_fault
                        captcha_duration captcha_events) \<le> 1"
    by (rule run_captcha_verification_confidence)
  have upload: "0 \<le> confidence (verify_uploaded_audio captcha_loaded word_to_num d recognition expression) \<and>
          confidence (verify_uploaded_audio captcha_loaded word_to_num d recognition expression) \<le> 1"
    by (rule verify_uploaded_audio_confidence)
  have midas: "(\<forall>f\<in>set (frames_of midas_events). 0 \<le> brightness f \<and> 0 \<le> reproj (pose_of f)) \<longrightarrow>
            0 \<le> confidence (run_liveness_check midas_loaded midas_duration midas_events) \<and>
            confidence (run_liveness_check midas_loaded midas_duration midas_events) \<le> 1"
    by (intro impI) (rule run_liveness_check_confidence)
  have person: "(length ref_faces = 1 \<longrightarrow> linalg_norm (hd ref_faces) \<noteq> 0) \<and>
          (\<forall>faces\<in>set (frames_of person_events).
              length faces = 1 \<longrightarrow> linalg_norm (hd faces) \<noteq> 0) \<longrightarrow>
            - 1 \<le> confidence (verify_person person_loaded ref_faces person_duration person_events) \<and>
            confidence (verify_person person_loaded ref_faces person_duration person_events) \<le> 1"
    by (intro impI, elim conjE) (rule verify_person_confidence)
  have pipeline: "lo \<le> 0 \<and> 1 \<le> hi \<and>
          (\<forall>b\<in>set (step_blocks ex reference_image_data).
             \<forall>r. block_outcome b = Returned r \<and> success r \<longrightarrow>
               lo \<le> confidence r \<and> confidence r \<le> hi) \<longrightarrow>
            lo \<le> r_confidence res \<and> r_confidence res \<le> hi"
    by (intro impI, elim conjE) (rule pipeline_confidence[OF run])
  from blink captcha upload midas person pipeline show ?thesis by blast
qed

text \<open>
  With one frame that matches the reference and two frames whose embedding is the
  opposite vector, person verification passes with confidence -1/3.
\<close>

theorem negative_person_confidence_counterexample:
  "success (verify_person True [[1, 0]] 2 mixed_person_events) \<and>
   confidence (verify_person True [[1, 0]] 2 mixed_person_events) = - 1 / 3"
  by (simp add: verify_person_def seen_def mixed_person_events_def normalised_unit np_dot_def
      initial_person_state_def mean_or_zero_def Let_def)

lemma frames_of_map_Frame: "frames_of (map Frame fs) = fs"
  by (induction fs) simp_all

theorem confidence_ranges_witness:
  "- 1 \<le> confidence (verify_person True [[1, 0]] 2 mixed_person_events) \<and>
   confidence (verify_person True [[1, 0]] 2 mixed_person_events) \<le> 1 \<and>
   0 \<le> confidence (run_liveness_check True 5 (vote_events 3 2)) \<and>
   confidence (run_liveness_check True 5 (vote_events 3 2)) \<le> 1 \<and>
   0 \<le> r_confidence (fst passing_run) \<and> r_confidence (fst passing_run) \<le> 1"
proof -
  let ?ex = "demo_executors (step_ok (4 / 5)) (step_ok (1 / 2)) (step_ok 1)"
  have h1: "run_complete_liveness_detection config_confidence_threshold demo_env demo_service ?ex
              (Some ''img'')
      = (fst passing_run, fst (snd passing_run), fst (snd (snd passing_run)),
         snd (snd (snd passing_run)))"
    by (simp add: passing_run_def)
  have fr: "frames_of (vote_events 3 2) = replicate 3 live_frame @ replicate 2 empty_frame"
    unfolding vote_events_def by (rule frames_of_map_Frame)
  have h_midas: "\<forall>f\<in>set (frames_of (vote_events 3 2)). 0 \<le> brightness f \<and> 0 \<le> reproj (pose_of f)"
    unfolding fr by (auto simp: live_frame_def empty_frame_def pose_of_def)
  have h_ref: "length [[1, 0 :: real]] = 1 \<longrightarrow> linalg_norm (hd [[1, 0]]) \<noteq> 0"
    by (simp add: linalg_norm_unit)
  have h_person: "\<forall>faces\<in>set (frames_of mixed_person_events).
      length faces = 1 \<longrightarrow> linalg_norm (hd faces) \<noteq> 0"
    by (simp add: mixed_person_events_def linalg_norm_unit)
  have h_pipe: "\<forall>b\<in>set (step_blocks ?ex (Some ''img'')).
      \<forall>r. block_outcome b = Returned r \<and> success r \<longrightarrow> 0 \<le> confidence r \<and> confidence r \<le> 1"
    by (auto simp: step_blocks_def truthy_def demo_executors_def person_block_def step_ok_def)
  from confidence_ranges[OF h1, of _ _ _ _ _ _ _ _ _ _ _ "vote_events 3 2" True 5
         "[[1, 0]]" mixed_person_events True 2 0 1]
       h_midas h_ref h_person h_pipe
  show ?thesis by simp
qed

end
